theory Spec2Isabelle
  imports Main "HOL-Library.List_Lexorder" "HOL-Library.Multiset"
begin

section \<open>JavaScript strings\<close>

text \<open>
  A JavaScript string is a sequence of UTF-16 code units. Every string operation of the
  two routes (\<open>split\<close>, \<open>trim\<close>, \<open>slice\<close>, \<open>endsWith\<close>, the regular expressions)
  works on code units, so a string is modelled as the list of its code units, each the
  number \<open>charCodeAt\<close> returns. \<open>js\<close> turns an ASCII literal into such a list; the
  Chinese literals of the source are written out as their code units.
\<close>

type_synonym jschar = nat
type_synonym jsstring = "jschar list"

definition js :: "string \<Rightarrow> jsstring" where
  "js s = map of_char s"

abbreviation (input) NEWLINE :: jschar where "NEWLINE \<equiv> 10"
abbreviation (input) SPACE :: jschar where "SPACE \<equiv> 32"
abbreviation (input) COMMA :: jschar where "COMMA \<equiv> 44"
abbreviation (input) DOT :: jschar where "DOT \<equiv> 46"
abbreviation (input) SLASH :: jschar where "SLASH \<equiv> 47"
abbreviation (input) UNDERSCORE :: jschar where "UNDERSCORE \<equiv> 95"

text \<open>
  \<open>String.prototype.split\<close> with a one-character separator: the pieces between the
  occurrences of the separator; the empty string gives one empty piece.
\<close>

fun split :: "jschar \<Rightarrow> jsstring \<Rightarrow> jsstring list" where
  "split sep [] = [[]]"
| "split sep (c # cs) =
     (if c = sep then [] # split sep cs
      else (case split sep cs of
              [] \<Rightarrow> [[c]]
            | w # ws \<Rightarrow> (c # w) # ws))"

text \<open>
  \<open>String.prototype.trim\<close> removes the WhiteSpace and LineTerminator code units of
  ECMAScript from both ends.
\<close>

definition isWhiteSpace :: "jschar \<Rightarrow> bool" where
  "isWhiteSpace c \<longleftrightarrow>
     (9 \<le> c \<and> c \<le> 13) \<or> c = 32 \<or> c = 160 \<or> c = 5760 \<or> (8192 \<le> c \<and> c \<le> 8202) \<or>
     c = 8232 \<or> c = 8233 \<or> c = 8239 \<or> c = 8287 \<or> c = 12288 \<or> c = 65279"

definition trim :: "jsstring \<Rightarrow> jsstring" where
  "trim s = rev (dropWhile isWhiteSpace (rev (dropWhile isWhiteSpace s)))"

definition endsWith :: "jsstring \<Rightarrow> jsstring \<Rightarrow> bool" where
  "endsWith s suf \<longleftrightarrow> length suf \<le> length s \<and> drop (length s - length suf) s = suf"

definition slice :: "jsstring \<Rightarrow> nat \<Rightarrow> nat \<Rightarrow> jsstring" where
  "slice s i j = take (j - i) (drop i s)"

section \<open>Errors and CSV records\<close>

text \<open>
  A thrown exception or rejected promise is a value: \<open>IOError\<close> is the rejection of
  \<open>readdir\<close> or \<open>readFile\<close>, \<open>TypeError\<close> the exception of a method call on
  \<open>undefined\<close>; each carries its message.
\<close>

datatype error = IOError jsstring | TypeError jsstring

fun message :: "error \<Rightarrow> jsstring" where
  "message (IOError m) = m"
| "message (TypeError m) = m"

definition undefined_read :: "string \<Rightarrow> error" where
  "undefined_read prop =
     TypeError (js ''Cannot read properties of undefined (reading '' @ [39] @ js prop @ [39] @ js '')'')"

text \<open>
  A parsed row is a \<open>Record<string, string>\<close>: a finite map from header to cell, the own
  properties of the object. Reading one of the columns the formatters use when it was
  never written gives \<open>undefined\<close>, here \<open>None\<close>.
\<close>

type_synonym csv_record = "jsstring \<rightharpoonup> jsstring"

text \<open>\<open>a || b\<close> on strings: the empty string and \<open>undefined\<close> are falsy.\<close>

definition or_else :: "jsstring option \<Rightarrow> jsstring \<Rightarrow> jsstring" where
  "or_else v d = (case v of None \<Rightarrow> d | Some s \<Rightarrow> if s = [] then d else s)"

text \<open>\<open>values[index]\<close>: \<open>undefined\<close> beyond the end of the array.\<close>

definition at_index :: "'a list \<Rightarrow> nat \<Rightarrow> 'a option" where
  "at_index xs i = (if i < length xs then Some (xs ! i) else None)"

text \<open>
  The assignment \<open>record[key] = v\<close> on an object made by \<open>{}\<close> creates or overwrites an
  own property, except for the key \<open>__proto__\<close>: that name is an accessor of
  \<open>Object.prototype\<close> whose setter ignores a string, so the record gets no property.
\<close>

definition proto_key :: jsstring where
  "proto_key = js ''__proto__''"

definition record_set :: "csv_record \<Rightarrow> jsstring \<Rightarrow> jsstring \<Rightarrow> csv_record" where
  "record_set record key v = (if key = proto_key then record else record(key \<mapsto> v))"

text \<open>
  The loop \<open>for (const [index, header] of headers.entries()) record[header] = values[index] || d\<close>,
  run from index \<open>i\<close> on; a later assignment to the same header overwrites an earlier one.
\<close>

fun fill_record :: "jsstring \<Rightarrow> jsstring list \<Rightarrow> nat \<Rightarrow> jsstring list \<Rightarrow> csv_record \<Rightarrow> csv_record" where
  "fill_record d vals i [] record = record"
| "fill_record d vals i (header # headers) record =
     fill_record d vals (Suc i) headers (record_set record header (or_else (at_index vals i) d))"

subsection \<open>parseCSV of the stockpicker route\<close>

definition sp_parse_row :: "jsstring list \<Rightarrow> jsstring \<Rightarrow> csv_record" where
  "sp_parse_row headers line =
     (let vals = map trim (split COMMA line)
      in fill_record [] vals 0 headers Map.empty)"

definition sp_parseCSV :: "jsstring \<Rightarrow> error + csv_record list" where
  "sp_parseCSV content =
     (let lines = split NEWLINE (trim content)
      in case lines of
           [] \<Rightarrow> Inl (undefined_read ''split'')
         | l0 # rest \<Rightarrow>
             (let headers = map trim (split COMMA l0)
              in Inr (map (sp_parse_row headers) (filter (\<lambda>line. trim line \<noteq> []) rest))))"

subsection \<open>parseCSV of the rotation-monitor route\<close>

definition rm_parse_row :: "jsstring list \<Rightarrow> jsstring \<Rightarrow> csv_record" where
  "rm_parse_row headers line =
     (let vals = map (\<lambda>v. or_else (Some (trim v)) (js ''-'')) (split COMMA line)
      in fill_record (js ''-'') vals 0 headers Map.empty)"

definition rm_parseCSV :: "jsstring \<Rightarrow> error + csv_record list" where
  "rm_parseCSV content =
     (let lines = split NEWLINE (trim content)
      in if length lines < 1 then Inr []
         else (case lines of
                 [] \<Rightarrow> Inl (undefined_read ''split'')
               | l0 # rest \<Rightarrow>
                   (let headers = map trim (split COMMA l0)
                    in Inr (map (rm_parse_row headers) (filter (\<lambda>line. trim line \<noteq> []) rest)))))"

section \<open>Library functions used by the handlers\<close>

text \<open>
  \<open>a.localeCompare(b)\<close>: negative, zero or positive. The handlers compare only the
  eight-digit date prefixes of matched file names; on digit strings of equal length the
  collation order is the order of the code units, which is what is modelled.
\<close>

definition localeCompare :: "jsstring \<Rightarrow> jsstring \<Rightarrow> int" where
  "localeCompare a b = (if a < b then - 1 else if a = b then 0 else 1)"

text \<open>
  \<open>Array.prototype.sort\<close> and \<open>toSorted\<close> with a comparator are stable: elements the
  comparator calls equal keep their order. Insertion from the right gives that list.
\<close>

fun insort_cmp :: "('a \<Rightarrow> 'a \<Rightarrow> int) \<Rightarrow> 'a \<Rightarrow> 'a list \<Rightarrow> 'a list" where
  "insort_cmp cmp x [] = [x]"
| "insort_cmp cmp x (y # ys) =
     (if cmp x y \<le> 0 then x # y # ys else y # insort_cmp cmp x ys)"

definition sort_cmp :: "('a \<Rightarrow> 'a \<Rightarrow> int) \<Rightarrow> 'a list \<Rightarrow> 'a list" where
  "sort_cmp cmp xs = foldr (insort_cmp cmp) xs []"

text \<open>
  \<open>Number.parseInt(s)\<close> without a radix: leading white space is skipped, then an
  optional sign, then \<open>0x\<close> or \<open>0X\<close> selects radix 16, then the longest run of digits
  is read; no digit at all gives \<open>NaN\<close>, here \<open>None\<close>. The handlers pass slices of at most
  four code units, so the double result is exact.
\<close>

definition digit_value :: "jschar \<Rightarrow> nat option" where
  "digit_value c =
     (if 48 \<le> c \<and> c \<le> 57 then Some (c - 48)
      else if 97 \<le> c \<and> c \<le> 122 then Some (c - 87)
      else if 65 \<le> c \<and> c \<le> 90 then Some (c - 55)
      else None)"

definition is_radix_digit :: "nat \<Rightarrow> jschar \<Rightarrow> bool" where
  "is_radix_digit R c = (case digit_value c of None \<Rightarrow> False | Some v \<Rightarrow> v < R)"

definition digits_value :: "nat \<Rightarrow> jsstring \<Rightarrow> nat" where
  "digits_value R ds =
     foldl (\<lambda>acc c. acc * R + (case digit_value c of None \<Rightarrow> 0 | Some v \<Rightarrow> v)) 0 ds"

definition parseInt :: "jsstring \<Rightarrow> int option" where
  "parseInt s =
     (let s1 = dropWhile isWhiteSpace s;
          neg = (s1 \<noteq> [] \<and> hd s1 = 45);
          s2 = (if s1 \<noteq> [] \<and> (hd s1 = 43 \<or> hd s1 = 45) then tl s1 else s1);
          hex = (take 2 s2 = js ''0x'' \<or> take 2 s2 = js ''0X'');
          R = (if hex then 16 else 10);
          s3 = (if hex then drop 2 s2 else s2);
          z = takeWhile (is_radix_digit R) s3
      in if z = [] then None
         else Some (if neg then - int (digits_value R z) else int (digits_value R z)))"

text \<open>
  The value of \<open>new Date(year, monthIndex, day)\<close> is kept as its three arguments (local
  time, midnight, \<open>monthIndex\<close> counted from 0); a \<open>NaN\<close> argument gives the invalid
  date. \<open>Now\<close> is \<open>new Date()\<close>.
\<close>

datatype js_date = NewDate int int int | InvalidDate | Now

text \<open>Conversion of a non-negative integer to its decimal string, as a template literal does.\<close>

fun show_nat :: "nat \<Rightarrow> jsstring" where
  "show_nat n = (if n < 10 then [48 + n] else show_nat (n div 10) @ [48 + n mod 10])"

declare show_nat.simps [simp del]

text \<open>A template literal prints \<open>undefined\<close> for a missing property.\<close>

definition template :: "jsstring option \<Rightarrow> jsstring" where
  "template v = (case v of None \<Rightarrow> js ''undefined'' | Some s \<Rightarrow> s)"

definition truthy :: "jsstring option \<Rightarrow> bool" where
  "truthy v = (case v of None \<Rightarrow> False | Some s \<Rightarrow> s \<noteq> [])"

text \<open>\<open>s.replace(a, b)\<close> with one-character strings replaces the first occurrence only.\<close>

fun replace_first :: "jschar \<Rightarrow> jschar \<Rightarrow> jsstring \<Rightarrow> jsstring" where
  "replace_first a b [] = []"
| "replace_first a b (c # cs) = (if c = a then b # cs else c # replace_first a b cs)"

text \<open>
  \<open>toUpperCase\<close> of a one-unit string. It is exact on ASCII; the handlers apply it to the
  first unit of a file-name segment made of \<open>\w\<close> characters.
\<close>

definition toUpperCase1 :: "jschar \<Rightarrow> jsstring" where
  "toUpperCase1 c = (if 97 \<le> c \<and> c \<le> 122 then [c - 32] else [c])"

text \<open>
  \<open>s.replace(/^./, (str) => str.toUpperCase())\<close>: the dot matches one code unit that is
  not a line terminator.
\<close>

definition isLineTerminator :: "jschar \<Rightarrow> bool" where
  "isLineTerminator c \<longleftrightarrow> c = 10 \<or> c = 13 \<or> c = 8232 \<or> c = 8233"

definition capitalize :: "jsstring \<Rightarrow> jsstring" where
  "capitalize s =
     (case s of
        [] \<Rightarrow> []
      | c # cs \<Rightarrow> if isLineTerminator c then c # cs else toUpperCase1 c @ cs)"

subsection \<open>Regular expressions of the file names\<close>

definition isDigit :: "jschar \<Rightarrow> bool" where
  "isDigit c \<longleftrightarrow> 48 \<le> c \<and> c \<le> 57"

definition isWordChar :: "jschar \<Rightarrow> bool" where
  "isWordChar c \<longleftrightarrow>
     (48 \<le> c \<and> c \<le> 57) \<or> (65 \<le> c \<and> c \<le> 90) \<or> (97 \<le> c \<and> c \<le> 122) \<or> c = 95"

text \<open>
  \<open>/^\d{8}SUFFIX$/\<close> for a literal suffix: eight digits, then exactly the suffix.
\<close>

definition matches_date_suffix :: "jsstring \<Rightarrow> jsstring \<Rightarrow> bool" where
  "matches_date_suffix suf s \<longleftrightarrow>
     length (take 8 s) = 8 \<and> list_all isDigit (take 8 s) \<and> drop 8 s = suf"

text \<open>
  \<open>/^\d{8}_\w+_selected_stocks\.csv$/\<close>: eight digits, an underscore, one or more word
  characters, then the literal \<open>_selected_stocks.csv\<close> up to the end. The prefix has a
  fixed length and the suffix is a literal, so the part matched by \<open>\w+\<close> is what lies
  between them, \<open>selected_label\<close>.
\<close>

definition selected_suffix :: jsstring where
  "selected_suffix = js ''_selected_stocks.csv''"

definition selected_label :: "jsstring \<Rightarrow> jsstring" where
  "selected_label s = take (length s - 9 - length selected_suffix) (drop 9 s)"

definition matches_selected_stocks :: "jsstring \<Rightarrow> bool" where
  "matches_selected_stocks s \<longleftrightarrow>
     length s \<ge> 9 + 1 + length selected_suffix \<and>
     list_all isDigit (take 8 s) \<and>
     s ! 8 = UNDERSCORE \<and>
     list_all isWordChar (selected_label s) \<and>
     drop (length s - length selected_suffix) s = selected_suffix"

subsection \<open>POSIX \<open>path.join\<close> and \<open>path.basename\<close>\<close>

text \<open>
  \<open>path.join\<close> puts a slash between its non-empty arguments and normalises the result:
  empty and \<open>.\<close> segments disappear, a \<open>..\<close> segment removes the segment before it (or
  stays, in a relative path, when there is none to remove).
\<close>

fun normalize_segments :: "bool \<Rightarrow> jsstring list \<Rightarrow> jsstring list \<Rightarrow> jsstring list" where
  "normalize_segments allowAboveRoot res [] = res"
| "normalize_segments allowAboveRoot res (seg # segs) =
     (if seg = [] \<or> seg = [DOT] then normalize_segments allowAboveRoot res segs
      else if seg = [DOT, DOT] then
        (if res \<noteq> [] \<and> last res \<noteq> [DOT, DOT] then normalize_segments allowAboveRoot (butlast res) segs
         else if allowAboveRoot then normalize_segments allowAboveRoot (res @ [seg]) segs
         else normalize_segments allowAboveRoot res segs)
      else normalize_segments allowAboveRoot (res @ [seg]) segs)"

fun join_with :: "jschar \<Rightarrow> jsstring list \<Rightarrow> jsstring" where
  "join_with sep [] = []"
| "join_with sep [s] = s"
| "join_with sep (s # t # ss) = s @ sep # join_with sep (t # ss)"

definition path_normalize :: "jsstring \<Rightarrow> jsstring" where
  "path_normalize p =
     (if p = [] then [DOT]
      else
        (let isAbsolute = (hd p = SLASH);
             trailingSeparator = (last p = SLASH);
             q = join_with SLASH (normalize_segments (\<not> isAbsolute) [] (split SLASH p))
         in if q = [] then
              (if isAbsolute then [SLASH] else if trailingSeparator then [DOT, SLASH] else [DOT])
            else (if isAbsolute then [SLASH] else []) @ q @
                 (if trailingSeparator then [SLASH] else [])))"

definition path_join :: "jsstring \<Rightarrow> jsstring \<Rightarrow> jsstring" where
  "path_join a b =
     (if a = [] \<and> b = [] then [DOT]
      else if a = [] then path_normalize b
      else if b = [] then path_normalize a
      else path_normalize (a @ SLASH # b))"

definition path_basename :: "jsstring \<Rightarrow> jsstring" where
  "path_basename p =
     rev (takeWhile (\<lambda>c. c \<noteq> SLASH) (dropWhile (\<lambda>c. c = SLASH) (rev p)))"

section \<open>Directory entries, the file system, feeds\<close>

text \<open>A \<open>Dirent\<close> as the handlers use it: its name and the answer of \<open>isFile()\<close>.\<close>

record dirent =
  name :: jsstring
  isFile :: bool

text \<open>
  The file system as the two calls of \<open>node:fs/promises\<close> see it: each either resolves
  with a value or rejects with an error.
\<close>

record filesystem =
  readdir :: "jsstring \<Rightarrow> error + dirent list"
  readFile :: "jsstring \<Rightarrow> error + jsstring"

record feed_item =
  title :: jsstring
  description :: jsstring
  pubDate :: js_date
  category :: "jsstring list"

text \<open>The feed object a handler returns; \<open>link\<close> is absent from one of the returns.\<close>

record feed =
  feed_title :: jsstring
  feed_link :: "jsstring option"
  feed_description :: jsstring
  item :: "feed_item list"

text \<open>
  \<open>Promise.all(xs.map(async f))\<close>: the list of the results when every call succeeds, a
  rejection when one fails. Which rejection wins when several calls fail depends on
  timing; the model reports the first in list order.
\<close>

fun promise_all :: "('a \<Rightarrow> error + 'b) \<Rightarrow> 'a list \<Rightarrow> error + 'b list" where
  "promise_all f [] = Inr []"
| "promise_all f (x # xs) =
     (case f x of
        Inl e \<Rightarrow> Inl e
      | Inr y \<Rightarrow> (case promise_all f xs of Inl e \<Rightarrow> Inl e | Inr ys \<Rightarrow> Inr (y # ys)))"

text \<open>\<open>new Date(parseInt(s.slice(0, 4)), parseInt(s.slice(4, 6)) - 1, parseInt(s.slice(6, 8)))\<close>\<close>

definition date_of :: "jsstring \<Rightarrow> js_date" where
  "date_of dateStr =
     (case (parseInt (slice dateStr 0 4), parseInt (slice dateStr 4 6), parseInt (slice dateStr 6 8)) of
        (Some y, Some m, Some d) \<Rightarrow> NewDate y (m - 1) d
      | _ \<Rightarrow> InvalidDate)"

section \<open>The stockpicker route\<close>

definition zh_pick_result :: jsstring where
  \<comment> \<open>"stock picking result"\<close>
  "zh_pick_result = [0x9009, 0x80A1, 0x7ED3, 0x679C]"

definition zh_date :: jsstring where
  \<comment> \<open>"date"\<close>
  "zh_date = [0x65E5, 0x671F]"

definition zh_pick_count :: jsstring where
  \<comment> \<open>"number of stocks picked"\<close>
  "zh_pick_count = [0x9009, 0x80A1, 0x6570, 0x91CF]"

definition zh_counter :: jsstring where
  \<comment> \<open>the counting word after the number\<close>
  "zh_counter = [0x53EA]"

definition zh_industry :: jsstring where
  \<comment> \<open>"industry"\<close>
  "zh_industry = [0x6240, 0x5C5E, 0x884C, 0x4E1A]"

definition zh_weight :: jsstring where
  \<comment> \<open>"picking weight"\<close>
  "zh_weight = [0x9009, 0x80A1, 0x6743, 0x91CD]"

definition zh_percentile :: jsstring where
  \<comment> \<open>"percentile"\<close>
  "zh_percentile = [0x767E, 0x5206, 0x4F4D]"

definition sp_feed_title :: jsstring where
  \<comment> \<open>"daily stock picking data"\<close>
  "sp_feed_title = [0x6BCF, 0x65E5, 0x9009, 0x80A1, 0x6570, 0x636E]"

definition sp_feed_description :: jsstring where
  \<comment> \<open>"daily stock picking data RSS source"\<close>
  "sp_feed_description = [0x6BCF, 0x65E5, 0x9009, 0x80A1, 0x6570, 0x636E] @ js ''RSS'' @ [0x6E90]"

text \<open>The filter of the directory listing (line 37 of the source).\<close>

definition isStockFile :: "dirent \<Rightarrow> bool" where
  "isStockFile file \<longleftrightarrow>
     isFile file \<and> endsWith (name file) (js ''.csv'') \<and> matches_selected_stocks (name file)"

text \<open>The comparator of \<open>stockFiles.sort\<close>: the newest date first.\<close>

definition sp_compare :: "dirent \<Rightarrow> dirent \<Rightarrow> int" where
  "sp_compare a b =
     (let dateA = slice (name a) 0 8; dateB = slice (name b) 0 8
      in localeCompare dateB dateA)"

text \<open>The lines one record adds to the description; \<open>index\<close> counts from 0.\<close>

definition sp_record_text :: "nat \<Rightarrow> csv_record \<Rightarrow> jsstring" where
  "sp_record_text index record =
     (let ts_code = record (js ''ts_code'');
          target_weight = record (js ''target_weight'');
          name = record (js ''name'');
          industry = record (js ''industry'');
          pe = record (js ''pe'');
          pe_percentile = record (js ''pe_percentile'')
      in show_nat (index + 1) @ js ''. **'' @ template name @ js ''** ('' @ template ts_code @ js '')\<newline>'' @
         js ''   - '' @ zh_industry @ js '': '' @ template industry @ js ''\<newline>'' @
         js ''   - '' @ zh_weight @ js '': '' @ template target_weight @ js ''\<newline>'' @
         (if truthy pe then js ''   - PE: '' @ template pe @ js ''\<newline>'' else []) @
         (if truthy pe_percentile
          then js ''   - PE'' @ zh_percentile @ js '': '' @ template pe_percentile @ js ''\<newline>''
          else []) @
         js ''\<newline>'')"

fun sp_records_text :: "nat \<Rightarrow> csv_record list \<Rightarrow> jsstring" where
  "sp_records_text index [] = []"
| "sp_records_text index (record # records) =
     sp_record_text index record @ sp_records_text (Suc index) records"

text \<open>The description of one item (lines 63 to 80).\<close>

definition sp_description :: "jsstring \<Rightarrow> jsstring \<Rightarrow> csv_record list \<Rightarrow> jsstring" where
  "sp_description formattedType dateStr records =
     js ''### '' @ formattedType @ js '' '' @ zh_pick_result @ js ''\<newline>\<newline>'' @
     js ''**'' @ zh_date @ js ''**: '' @ dateStr @ js ''\<newline>'' @
     js ''**'' @ zh_pick_count @ js ''**: '' @ show_nat (length records) @ zh_counter @
     js ''\<newline>\<newline>'' @
     sp_records_text 0 records"

text \<open>
  The body of the \<open>async\<close> callback of \<open>stockFiles.map\<close>: read the file, parse it, take
  the date and the type from the name, build the item. \<open>file.name.split('_', 2)\<close> keeps
  the first two pieces; with one piece only, \<open>type\<close> is \<open>undefined\<close> and
  \<open>type.replace\<close> throws.
\<close>

definition sp_item :: "filesystem \<Rightarrow> jsstring \<Rightarrow> dirent \<Rightarrow> error + feed_item" where
  "sp_item fs directory file =
     (let filePath = path_join directory (name file)
      in case readFile fs filePath of
           Inl e \<Rightarrow> Inl e
         | Inr fileContent \<Rightarrow>
             (case sp_parseCSV fileContent of
                Inl e \<Rightarrow> Inl e
              | Inr records \<Rightarrow>
                  (case take 2 (split UNDERSCORE (name file)) of
                     dateStr # type # _ \<Rightarrow>
                       (let date = date_of dateStr;
                            formattedType = capitalize (replace_first UNDERSCORE SPACE type)
                        in Inr \<lparr>title = dateStr @ js '' '' @ formattedType @ js '' '' @ zh_pick_result,
                                description = sp_description formattedType dateStr records,
                                pubDate = date,
                                category = [type]\<rparr>)
                   | _ \<Rightarrow> Inl (undefined_read ''replace''))))"

definition stockpicker_handler :: "filesystem \<Rightarrow> jsstring \<Rightarrow> error + feed" where
  "stockpicker_handler fs directory =
     (case readdir fs directory of
        Inl e \<Rightarrow> Inl e
      | Inr files \<Rightarrow>
          (let stockFiles = sort_cmp sp_compare (filter isStockFile files)
           in case promise_all (sp_item fs directory) stockFiles of
                Inl e \<Rightarrow> Inl e
              | Inr items \<Rightarrow>
                  Inr \<lparr>feed_title = sp_feed_title,
                       feed_link = Some directory,
                       feed_description = sp_feed_description,
                       item = items\<rparr>))"

section \<open>The rotation-monitor route\<close>

definition zh_read_failed :: jsstring where
  \<comment> \<open>"reading failed"\<close>
  "zh_read_failed = [0x8BFB, 0x53D6, 0x5931, 0x8D25]"

definition zh_cannot_read_directory :: jsstring where
  \<comment> \<open>"cannot read directory"\<close>
  "zh_cannot_read_directory = [0x65E0, 0x6CD5, 0x8BFB, 0x53D6, 0x76EE, 0x5F55]"

definition zh_error_message :: jsstring where
  \<comment> \<open>a full-width comma, then "error message"\<close>
  "zh_error_message = [0xFF0C, 0x9519, 0x8BEF, 0x4FE1, 0x606F]"

definition zh_rotation_monitor :: jsstring where
  \<comment> \<open>"rotation market monitor"\<close>
  "zh_rotation_monitor = [0x8F6E, 0x52A8, 0x884C, 0x60C5, 0x76D1, 0x63A7]"

definition zh_no_matching_csv :: jsstring where
  \<comment> \<open>"no rotation CSV file matching the rules was found"\<close>
  "zh_no_matching_csv =
     [0x672A, 0x627E, 0x5230, 0x7B26, 0x5408, 0x89C4, 0x5219, 0x7684, 0x8F6E, 0x52A8, 0x884C, 0x60C5] @
     js ''CSV'' @ [0x6587, 0x4EF6]"

definition zh_no_complete_data :: jsstring where
  \<comment> \<open>"no complete rotation data was found"\<close>
  "zh_no_complete_data =
     [0x672A, 0x627E, 0x5230, 0x5B8C, 0x6574, 0x7684, 0x8F6E, 0x52A8, 0x884C, 0x60C5, 0x6570, 0x636E]"

definition zh_unknown_industry :: jsstring where
  \<comment> \<open>"unknown industry"\<close>
  "zh_unknown_industry = [0x672A, 0x77E5, 0x884C, 0x4E1A]"

definition md_date_line :: jsstring where
  \<comment> \<open>a quote mark, the calendar emoji, "date" and a full-width colon\<close>
  "md_date_line = js ''> '' @ [0xD83D, 0xDCC5] @ js '' '' @ [0x65E5, 0x671F, 0xFF1A]"

definition md_top_heading :: jsstring where
  \<comment> \<open>"leading sector of the day"\<close>
  "md_top_heading =
     js ''## '' @ [0xD83D, 0xDCC8] @ js '' '' @ [0x5F53, 0x65E5, 0x9886, 0x6DA8, 0x677F, 0x5757, 0xFF1A]"

definition md_stock_list :: jsstring where
  \<comment> \<open>"stock list"\<close>
  "md_stock_list =
     js ''### '' @ [0xD83D, 0xDCCB] @ js '' '' @ [0x80A1, 0x7968, 0x5217, 0x8868] @ js ''\<newline>\<newline>''"

definition md_bottom_heading :: jsstring where
  \<comment> \<open>"high-potential sector of the day"\<close>
  "md_bottom_heading =
     js ''## '' @ [0xD83D, 0xDCCA] @ js '' '' @ [0x5F53, 0x65E5, 0x9AD8, 0x6F5C, 0x677F, 0x5757, 0xFF1A]"

definition zh_industry_trend :: jsstring where
  \<comment> \<open>"industry performance trend"\<close>
  "zh_industry_trend = [0x884C, 0x4E1A, 0x8868, 0x73B0, 0x8D8B, 0x52BF]"

definition md_trend_heading :: jsstring where
  "md_trend_heading = js ''## '' @ [0xD83D, 0xDCC9] @ js '' '' @ zh_industry_trend @ js ''\<newline>\<newline>''"

definition md_no_chart :: jsstring where
  \<comment> \<open>the quoted notice "no industry performance trend chart for now"\<close>
  "md_no_chart =
     js ''> '' @ [0x6682, 0x65E0] @ zh_industry_trend @ [0x56FE, 0x8868] @ js ''\<newline>\<newline>''"

definition rm_feed_description :: jsstring where
  \<comment> \<open>"daily rotation market monitor, with the data of the leading and high-potential sectors"\<close>
  "rm_feed_description =
     [0x6BCF, 0x65E5, 0x8F6E, 0x52A8, 0x884C, 0x60C5, 0x76D1, 0x63A7, 0xFF0C, 0x5305, 0x62EC, 0x9886,
      0x6DA8, 0x677F, 0x5757, 0x548C, 0x9AD8, 0x6F5C, 0x677F, 0x5757, 0x6570, 0x636E]"

definition default_image_base_url :: jsstring where
  "default_image_base_url = js ''http://localhost:1200/rotation-images''"

definition top_suffix :: jsstring where
  "top_suffix = js ''_top_industry_stocks.csv''"

definition bottom_suffix :: jsstring where
  "bottom_suffix = js ''_bottom_industry_stocks.csv''"

definition image_suffix :: jsstring where
  "image_suffix = js ''_industry_performance_trend.png''"

definition isTopCSV :: "dirent \<Rightarrow> bool" where
  "isTopCSV file \<longleftrightarrow>
     isFile file \<and> endsWith (name file) (js ''.csv'') \<and> matches_date_suffix top_suffix (name file)"

definition isBottomCSV :: "dirent \<Rightarrow> bool" where
  "isBottomCSV file \<longleftrightarrow>
     isFile file \<and> endsWith (name file) (js ''.csv'') \<and>
     matches_date_suffix bottom_suffix (name file)"

definition isImage :: "dirent \<Rightarrow> bool" where
  "isImage file \<longleftrightarrow>
     isFile file \<and> endsWith (name file) (js ''.png'') \<and>
     matches_date_suffix image_suffix (name file)"

text \<open>The value type of the map \<open>filesByDate\<close>.\<close>

record rotation_files =
  top_path :: jsstring
  bottom_path :: jsstring
  image_path :: "jsstring option"

text \<open>
  A JavaScript \<open>Map\<close> iterates in the order in which its keys were first inserted, so it
  is a list of pairs: \<open>set\<close> overwrites the value of a key that is present and appends a
  new key at the end; \<open>get\<close> and \<open>has\<close> are \<open>map_of\<close>.
\<close>

type_synonym files_by_date = "(jsstring \<times> rotation_files) list"

fun map_set :: "'k \<Rightarrow> 'v \<Rightarrow> ('k \<times> 'v) list \<Rightarrow> ('k \<times> 'v) list" where
  "map_set k v [] = [(k, v)]"
| "map_set k v ((k', v') # m) = (if k' = k then (k, v) # m else (k', v') # map_set k v m)"

text \<open>The bodies of the three loops over the top, bottom and image files.\<close>

definition add_top :: "jsstring \<Rightarrow> files_by_date \<Rightarrow> dirent \<Rightarrow> files_by_date" where
  "add_top directory filesByDate file =
     (let dateStr = slice (name file) 0 8;
          old = (case map_of filesByDate dateStr of
                   None \<Rightarrow> \<lparr>top_path = [], bottom_path = [], image_path = None\<rparr>
                 | Some fs \<Rightarrow> fs)
      in map_set dateStr (old\<lparr>top_path := path_join directory (name file)\<rparr>) filesByDate)"

definition add_bottom :: "jsstring \<Rightarrow> files_by_date \<Rightarrow> dirent \<Rightarrow> files_by_date" where
  "add_bottom directory filesByDate file =
     (let dateStr = slice (name file) 0 8
      in case map_of filesByDate dateStr of
           None \<Rightarrow> filesByDate
         | Some fs \<Rightarrow>
             map_set dateStr (fs\<lparr>bottom_path := path_join directory (name file)\<rparr>) filesByDate)"

definition add_image :: "jsstring \<Rightarrow> files_by_date \<Rightarrow> dirent \<Rightarrow> files_by_date" where
  "add_image directory filesByDate file =
     (let dateStr = slice (name file) 0 8
      in case map_of filesByDate dateStr of
           None \<Rightarrow> filesByDate
         | Some fs \<Rightarrow>
             map_set dateStr (fs\<lparr>image_path := Some (path_join directory (name file))\<rparr>) filesByDate)"

definition group_by_date :: "jsstring \<Rightarrow> dirent list \<Rightarrow> dirent list \<Rightarrow> dirent list \<Rightarrow> files_by_date" where
  "group_by_date directory topFiles bottomFiles imageFiles =
     foldl (add_image directory)
       (foldl (add_bottom directory)
          (foldl (add_top directory) [] topFiles)
          bottomFiles)
       imageFiles"

text \<open>The dates with both files, newest first (line 118 of the source).\<close>

definition rm_compare :: "jsstring \<times> rotation_files \<Rightarrow> jsstring \<times> rotation_files \<Rightarrow> int" where
  "rm_compare a b = (case (a, b) of ((dateA, _), (dateB, _)) \<Rightarrow> localeCompare dateB dateA)"

definition validRotationData :: "files_by_date \<Rightarrow> files_by_date" where
  "validRotationData filesByDate =
     sort_cmp rm_compare
       (filter (\<lambda>(_, files). top_path files \<noteq> [] \<and> bottom_path files \<noteq> []) filesByDate)"

text \<open>\<open>records[0]?.industry || unknown\<close>\<close>

definition first_industry :: "csv_record list \<Rightarrow> jsstring" where
  "first_industry records =
     (case records of
        [] \<Rightarrow> zh_unknown_industry
      | r # _ \<Rightarrow> or_else (r (js ''industry'')) zh_unknown_industry)"

fun rm_records_text :: "nat \<Rightarrow> csv_record list \<Rightarrow> jsstring" where
  "rm_records_text index [] = []"
| "rm_records_text index (record # records) =
     (show_nat (index + 1) @ js ''. **'' @ template (record (js ''name'')) @ js ''** ('' @
      template (record (js ''ts_code'')) @ js '')\<newline>'') @ rm_records_text (Suc index) records"

text \<open>The Markdown text up to and including the heading of the chart section.\<close>

definition rm_markdown_head :: "jsstring \<Rightarrow> csv_record list \<Rightarrow> csv_record list \<Rightarrow> jsstring" where
  "rm_markdown_head dateStr topRecords bottomRecords =
     js ''# '' @ zh_rotation_monitor @ js ''\<newline>\<newline>'' @
     md_date_line @ dateStr @ js ''\<newline>\<newline>'' @
     md_top_heading @ first_industry topRecords @ js ''\<newline>\<newline>'' @
     md_stock_list @
     rm_records_text 0 topRecords @
     js ''\<newline>'' @
     md_bottom_heading @ first_industry bottomRecords @ js ''\<newline>\<newline>'' @
     md_stock_list @
     rm_records_text 0 bottomRecords @
     js ''\<newline>'' @
     md_trend_heading"

text \<open>
  The chart section (lines 179 to 191): a Markdown image whose address is the base URL of
  the environment variable \<open>ROTATION_IMAGE_BASE_URL\<close> (or the default), a slash and the
  base name of the image path; without an image, the notice.
\<close>

definition rm_chart_section :: "jsstring option \<Rightarrow> jsstring option \<Rightarrow> jsstring" where
  "rm_chart_section base_url image_file =
     (if truthy image_file then
        (let imageFileName = path_basename (template image_file);
             imageUrl = or_else base_url default_image_base_url @ [SLASH] @ imageFileName
         in js ''!['' @ zh_industry_trend @ js '']('' @ imageUrl @ js '')\<newline>\<newline>'')
      else md_no_chart)"

text \<open>
  The callback of \<open>validRotationData.map\<close>. \<open>md\<close> is \<open>md.render\<close> of markdown-it, a
  library outside the repository; the date falls back to the current time when it is
  invalid.
\<close>

definition rm_item ::
  "(jsstring \<Rightarrow> jsstring) \<Rightarrow> jsstring option \<Rightarrow> filesystem \<Rightarrow> jsstring \<times> rotation_files \<Rightarrow> error + feed_item"
where
  "rm_item md base_url fs entry =
     (case entry of (dateStr, files) \<Rightarrow>
        (let date = (case date_of dateStr of InvalidDate \<Rightarrow> Now | d \<Rightarrow> d)
         in case readFile fs (top_path files) of
              Inl e \<Rightarrow> Inl e
            | Inr topContent \<Rightarrow>
                (case rm_parseCSV topContent of
                   Inl e \<Rightarrow> Inl e
                 | Inr topRecords \<Rightarrow>
                     (case readFile fs (bottom_path files) of
                        Inl e \<Rightarrow> Inl e
                      | Inr bottomContent \<Rightarrow>
                          (case rm_parseCSV bottomContent of
                             Inl e \<Rightarrow> Inl e
                           | Inr bottomRecords \<Rightarrow>
                               (let mdContent =
                                      rm_markdown_head dateStr topRecords bottomRecords @
                                      rm_chart_section base_url (image_path files)
                                in Inr \<lparr>title = dateStr @ js '' '' @ zh_rotation_monitor,
                                        description = md mdContent,
                                        pubDate = date,
                                        category = [js ''rotation'', js ''stock'']\<rparr>))))))"

text \<open>
  The handler's context is a Hono context: \<open>ctx.req.param\<close> reads a path parameter, and
  \<open>ctx.status\<close> is the method \<open>status(code)\<close> that sets the status of the response. The
  context is modelled by what the property \<open>status\<close> holds and by the status given to the
  response, if any.
\<close>

datatype ctx_status = StatusMethod | StatusValue nat

record handler_context =
  status :: ctx_status
  res_status :: "nat option"

definition hono_context :: handler_context where
  "hono_context = \<lparr>status = StatusMethod, res_status = None\<rparr>"

text \<open>
  The effect of the handler on its context. The only statement that touches it is the
  assignment \<open>ctx.status = 400\<close> of line 54: it replaces the method by the number and
  gives the response no status.
\<close>

definition rotation_ctx :: "filesystem \<Rightarrow> jsstring \<Rightarrow> handler_context \<Rightarrow> handler_context" where
  "rotation_ctx fs directory ctx =
     (case readdir fs directory of
        Inl error \<Rightarrow> ctx\<lparr>status := StatusValue 400\<rparr>
      | Inr files \<Rightarrow> ctx)"

text \<open>
  The handler returns the status it has given the response, if any, and the feed or the
  error of a rejected promise. No branch calls \<open>ctx.status(code)\<close>, so none gives a
  status.
\<close>

definition rotation_handler ::
  "(jsstring \<Rightarrow> jsstring) \<Rightarrow> jsstring option \<Rightarrow> filesystem \<Rightarrow> jsstring \<Rightarrow> nat option \<times> (error + feed)"
where
  "rotation_handler md base_url fs directory =
     (case readdir fs directory of
        Inl error \<Rightarrow>
          (None,
           Inr \<lparr>feed_title = zh_read_failed,
                feed_link = None,
                feed_description =
                  zh_cannot_read_directory @ js '': '' @ directory @ zh_error_message @ js '': '' @
                  message error,
                item = []\<rparr>)
      | Inr files \<Rightarrow>
          (let topFiles = filter isTopCSV files;
               bottomFiles = filter isBottomCSV files;
               imageFiles = filter isImage files
           in if length topFiles = 0 \<or> length bottomFiles = 0 then
                (None,
                 Inr \<lparr>feed_title = zh_rotation_monitor,
                      feed_link = Some directory,
                      feed_description = zh_no_matching_csv,
                      item = []\<rparr>)
              else
                (let valid = validRotationData (group_by_date directory topFiles bottomFiles imageFiles)
                 in if length valid = 0 then
                      (None,
                       Inr \<lparr>feed_title = zh_rotation_monitor,
                            feed_link = Some directory,
                            feed_description = zh_no_complete_data,
                            item = []\<rparr>)
                    else
                      (case promise_all (rm_item md base_url fs) valid of
                         Inl e \<Rightarrow> (None, Inl e)
                       | Inr items \<Rightarrow>
                           (None,
                            Inr \<lparr>feed_title = zh_rotation_monitor,
                                 feed_link = Some directory,
                                 feed_description = rm_feed_description,
                                 item = items\<rparr>)))))"

section \<open>Notions used in the statements\<close>

text \<open>
  The piece of a file name between its first and its second underscore, when the first
  underscore follows an eight-character date: what \<open>file.name.split('_', 2)[1]\<close> is for
  a matched name.
\<close>

definition type_segment :: "jsstring \<Rightarrow> jsstring" where
  "type_segment s = takeWhile (\<lambda>c. c \<noteq> UNDERSCORE) (drop 9 s)"

text \<open>The records of a file's text; \<open>sp_parseCSV\<close> has no failing path.\<close>

definition sp_records :: "jsstring \<Rightarrow> csv_record list" where
  "sp_records content = (case sp_parseCSV content of Inl _ \<Rightarrow> [] | Inr records \<Rightarrow> records)"

text \<open>The date of a matched file: the first eight code units of its name.\<close>

abbreviation date_prefix :: "dirent \<Rightarrow> jsstring" where
  "date_prefix f \<equiv> slice (name f) 0 8"

text \<open>The value of the map at a date, once the three loops have run.\<close>

definition files_of_date ::
  "jsstring \<Rightarrow> dirent list \<Rightarrow> dirent list \<Rightarrow> jsstring \<Rightarrow> rotation_files" where
  "files_of_date directory bottomFiles imageFiles d =
     \<lparr>top_path = path_join directory (d @ top_suffix),
      bottom_path = (if d \<in> date_prefix ` set bottomFiles
                     then path_join directory (d @ bottom_suffix) else []),
      image_path = (if d \<in> date_prefix ` set imageFiles
                    then Some (path_join directory (d @ image_suffix)) else None)\<rparr>"

text \<open>The records of a file's text in the rotation-monitor route.\<close>

definition rm_records :: "jsstring \<Rightarrow> csv_record list" where
  "rm_records content = (case rm_parseCSV content of Inl _ \<Rightarrow> [] | Inr records \<Rightarrow> records)"

text \<open>
  The Markdown image of the chart section: its address is the configured base URL (or
  the default), a slash and the file name of the image.
\<close>

definition image_reference :: "jsstring option \<Rightarrow> jsstring \<Rightarrow> jsstring" where
  "image_reference base_url imageFileName =
     js ''!['' @ zh_industry_trend @ js '']('' @ or_else base_url default_image_base_url @ [SLASH] @
     imageFileName @ js '')\<newline>\<newline>''"

section \<open>Example directories\<close>

definition example_csv :: jsstring where
  "example_csv =
     js ''ts_code,target_weight,name,industry,pe,pe_percentile\<newline>000001.SZ,0.05,PingAn,Banking,10.2,50''"

definition enoent :: error where
  "enoent = IOError (js ''ENOENT: no such file or directory'')"

definition stock_files :: "dirent list" where
  "stock_files =
     [\<lparr>name = js ''20240102_value_selected_stocks.csv'', isFile = True\<rparr>,
      \<lparr>name = js ''notes.txt'', isFile = True\<rparr>,
      \<lparr>name = js ''20240105_growth_selected_stocks.csv'', isFile = True\<rparr>,
      \<lparr>name = js ''20240103_small_cap_selected_stocks.csv'', isFile = True\<rparr>,
      \<lparr>name = js ''20240102_selected_stocks.csv'', isFile = True\<rparr>]"

definition stock_dir :: filesystem where
  "stock_dir =
     \<lparr>readdir = (\<lambda>d. if d = js ''/data'' then Inr stock_files else Inl enoent),
      readFile = (\<lambda>p. if take 6 p = js ''/data/'' then Inr example_csv else Inl enoent)\<rparr>"

text \<open>A directory holding only the file of the specification's example.\<close>

definition spec_example_dir :: filesystem where
  "spec_example_dir =
     \<lparr>readdir = (\<lambda>d. if d = js ''/data''
                      then Inr [\<lparr>name = js ''20240102_selected_stocks.csv'', isFile = True\<rparr>]
                      else Inl enoent),
      readFile = (\<lambda>p. if p = js ''/data/20240102_selected_stocks.csv'' then Inr example_csv
                       else Inl enoent)\<rparr>"

definition empty_dir :: filesystem where
  "empty_dir =
     \<lparr>readdir = (\<lambda>d. if d = js ''/data'' then Inr [] else Inl enoent),
      readFile = (\<lambda>p. Inl enoent)\<rparr>"

text \<open>
  A directory of the rotation-monitor route: 2 January has the two CSV files and the
  image, 3 January the top file only, 4 January the bottom file and an image, 5 January
  the two CSV files and no image.
\<close>

definition rotation_csv :: jsstring where
  "rotation_csv = js ''ts_code,name,industry\<newline>600000.SH,PuFa,Banking\<newline>000001.SZ,PingAn''"

definition rotation_files_list :: "dirent list" where
  "rotation_files_list =
     [\<lparr>name = js ''20240102_top_industry_stocks.csv'', isFile = True\<rparr>,
      \<lparr>name = js ''20240104_industry_performance_trend.png'', isFile = True\<rparr>,
      \<lparr>name = js ''20240102_bottom_industry_stocks.csv'', isFile = True\<rparr>,
      \<lparr>name = js ''20240103_top_industry_stocks.csv'', isFile = True\<rparr>,
      \<lparr>name = js ''20240105_bottom_industry_stocks.csv'', isFile = True\<rparr>,
      \<lparr>name = js ''20240104_bottom_industry_stocks.csv'', isFile = True\<rparr>,
      \<lparr>name = js ''20240102_industry_performance_trend.png'', isFile = True\<rparr>,
      \<lparr>name = js ''20240105_top_industry_stocks.csv'', isFile = True\<rparr>,
      \<lparr>name = js ''readme.md'', isFile = True\<rparr>]"

definition rotation_dir :: filesystem where
  "rotation_dir =
     \<lparr>readdir = (\<lambda>d. if d = js ''/rot'' then Inr rotation_files_list else Inl enoent),
      readFile = (\<lambda>p. if take 5 p = js ''/rot/'' then Inr rotation_csv else Inl enoent)\<rparr>"

section \<open>Properties of the CSV parsers\<close>

lemma split_not_Nil: "split sep s \<noteq> []"
  by (induction s) (auto split: list.splits)

lemma trim_whitespace_only: "list_all isWhiteSpace s \<Longrightarrow> trim s = []"
  by (auto simp: trim_def list_all_iff dest: set_dropWhileD)

text \<open>
  Neither parser has a failing path: \<open>split\<close> never returns the empty array, so
  \<open>lines[0]\<close> is always a string.
\<close>

lemma sp_parseCSV_Inr:
  "sp_parseCSV content =
     Inr (map (sp_parse_row (map trim (split COMMA (hd (split NEWLINE (trim content))))))
            (filter (\<lambda>line. trim line \<noteq> []) (tl (split NEWLINE (trim content)))))"
  using split_not_Nil [of NEWLINE "trim content"]
  by (simp add: sp_parseCSV_def Let_def split: list.splits)

lemma rm_parseCSV_Inr:
  "rm_parseCSV content =
     Inr (map (rm_parse_row (map trim (split COMMA (hd (split NEWLINE (trim content))))))
            (filter (\<lambda>line. trim line \<noteq> []) (tl (split NEWLINE (trim content)))))"
  using split_not_Nil [of NEWLINE "trim content"]
  by (simp add: rm_parseCSV_def Let_def split: list.splits)

text \<open>
  Claim C9. For every input string both \<open>parseCSV\<close> functions return a list of records
  and never throw. On the empty string and on a string of white space only, the trimmed
  text splits into the single line \<open>""\<close>, which is taken as the header row, and the
  list of records is empty.
\<close>

theorem parseCSV_total:
  "(\<exists>records. sp_parseCSV content = Inr records) \<and>
   (\<exists>records. rm_parseCSV content = Inr records) \<and>
   (list_all isWhiteSpace content \<longrightarrow>
      split NEWLINE (trim content) = [[]] \<and>
      sp_parseCSV content = Inr [] \<and> rm_parseCSV content = Inr [])"
  by (simp add: sp_parseCSV_Inr rm_parseCSV_Inr trim_whitespace_only)

theorem parseCSV_total_witness:
  "list_all isWhiteSpace (js '' \<newline>  '') \<and>
   split NEWLINE (trim (js '' \<newline>  '')) = [[]] \<and>
   sp_parseCSV (js '' \<newline>  '') = Inr [] \<and> rm_parseCSV (js '' \<newline>  '') = Inr [] \<and>
   sp_parseCSV [] = Inr [] \<and> rm_parseCSV [] = Inr []"
  using parseCSV_total [of "js '' \<newline>  ''"] parseCSV_total [of "[]"]
  by (simp add: js_def isWhiteSpace_def)

text \<open>A header that the loop does not visit keeps its value.\<close>

lemma fill_record_other:
  "h \<notin> set headers \<Longrightarrow> fill_record d vals i headers r h = r h"
  by (induction headers arbitrary: i r) (auto simp: record_set_def)

text \<open>
  Once the index is past the values, every header visited, other than \<open>__proto__\<close>, gets
  the default.
\<close>

lemma fill_record_default:
  "length vals \<le> i \<Longrightarrow> j < length headers \<Longrightarrow> headers ! j \<noteq> proto_key \<Longrightarrow>
   fill_record d vals i headers r (headers ! j) = Some d"
proof (induction headers arbitrary: i j r)
  case Nil
  then show ?case by simp
next
  case (Cons h hs)
  show ?case
  proof (cases "(h # hs) ! j \<in> set hs")
    case True
    then obtain k where "k < length hs" "hs ! k = (h # hs) ! j"
      by (auto simp: in_set_conv_nth)
    with Cons.IH [of "Suc i" k] Cons.prems show ?thesis by simp
  next
    case False
    with Cons.prems(2) have j0: "j = 0" by (cases j) auto
    with False have "h \<notin> set hs" by simp
    with j0 Cons.prems(1,3) show ?thesis
      by (simp add: fill_record_other at_index_def or_else_def record_set_def)
  qed
qed

lemma fill_record_append:
  "fill_record d vals i (hs1 @ hs2) r =
   fill_record d vals (i + length hs1) hs2 (fill_record d vals i hs1 r)"
  by (induction hs1 arbitrary: i r) auto

lemma fill_record_missing:
  assumes "length vals \<le> j" "j < length headers" "headers ! j \<noteq> proto_key"
  shows "fill_record d vals 0 headers r (headers ! j) = Some d"
proof -
  have "fill_record d vals 0 headers r =
          fill_record d vals j (drop j headers) (fill_record d vals 0 (take j headers) r)"
    using assms(2) fill_record_append [of d vals 0 "take j headers" "drop j headers" r]
    by (simp add: min_def)
  moreover have "headers ! j = drop j headers ! 0" using assms(2) by simp
  ultimately show ?thesis
    using fill_record_default [of vals j 0 "drop j headers" d] assms by simp
qed

text \<open>
  Both parsers return, without throwing, one record per non-blank data line. For a data
  line with fewer comma-separated fields than the header row, every header beyond the
  fields of the line, other than \<open>__proto__\<close>, is mapped to the empty string
  (stockpicker) or to the placeholder \<open>-\<close> (rotation-monitor).
\<close>

lemma short_row_defaults:
  "(let lines = split NEWLINE (trim content);
        headers = map trim (split COMMA (hd lines));
        rows = filter (\<lambda>line. trim line \<noteq> []) (tl lines)
    in sp_parseCSV content = Inr (map (sp_parse_row headers) rows) \<and>
       rm_parseCSV content = Inr (map (rm_parse_row headers) rows) \<and>
       (\<forall>row \<in> set rows. \<forall>i.
          length (split COMMA row) \<le> i \<and> i < length headers \<and> headers ! i \<noteq> proto_key \<longrightarrow>
            sp_parse_row headers row (headers ! i) = Some [] \<and>
            rm_parse_row headers row (headers ! i) = Some (js ''-'')))"
proof -
  have "sp_parse_row headers row (headers ! i) = Some [] \<and>
        rm_parse_row headers row (headers ! i) = Some (js ''-'')"
    if "length (split COMMA row) \<le> i" "i < length headers" "headers ! i \<noteq> proto_key"
    for headers row i
    using that unfolding sp_parse_row_def rm_parse_row_def Let_def
    by (intro conjI fill_record_missing) simp_all
  then show ?thesis
    unfolding Let_def
    by (intro conjI ballI allI impI sp_parseCSV_Inr rm_parseCSV_Inr) blast+
qed

lemma short_row_example:
  "sp_parseCSV (js ''a,b,c\<newline>1,2'') =
     Inr [sp_parse_row [js ''a'', js ''b'', js ''c''] (js ''1,2'')] \<and>
   rm_parseCSV (js ''a,b,c\<newline>1,2'') =
     Inr [rm_parse_row [js ''a'', js ''b'', js ''c''] (js ''1,2'')] \<and>
   length (split COMMA (js ''1,2'')) = 2 \<and>
   sp_parse_row [js ''a'', js ''b'', js ''c''] (js ''1,2'') (js ''c'') = Some [] \<and>
   rm_parse_row [js ''a'', js ''b'', js ''c''] (js ''1,2'') (js ''c'') = Some (js ''-'')"
  using short_row_defaults [of "js ''a,b,c\<newline>1,2''"]
  by (auto simp add: Let_def js_def trim_def isWhiteSpace_def proto_key_def)

text \<open>
  Claim C5 says that for a data row with fewer comma-separated fields than the header row
  both parsers return a record in which each missing field is mapped to the empty string
  or to the placeholder, and never throw. The parsers break it for a column named
  \<open>__proto__\<close>: under the header \<open>a,__proto__\<close> the row \<open>1\<close> lacks the second field,
  both parsers return their record without throwing, and the record holds the first
  field but no default for the second, since the assignment \<open>record['__proto__'] = ...\<close>
  is swallowed by the setter of \<open>Object.prototype\<close>.
\<close>

theorem proto_column_not_stored:
  "split COMMA (js ''1'') = [js ''1''] \<and>
   sp_parseCSV (js ''a,__proto__\<newline>1'') =
     Inr [sp_parse_row [js ''a'', js ''__proto__''] (js ''1'')] \<and>
   sp_parse_row [js ''a'', js ''__proto__''] (js ''1'') (js ''a'') = Some (js ''1'') \<and>
   sp_parse_row [js ''a'', js ''__proto__''] (js ''1'') (js ''__proto__'') = None \<and>
   rm_parseCSV (js ''a,__proto__\<newline>1'') =
     Inr [rm_parse_row [js ''a'', js ''__proto__''] (js ''1'')] \<and>
   rm_parse_row [js ''a'', js ''__proto__''] (js ''1'') (js ''a'') = Some (js ''1'') \<and>
   rm_parse_row [js ''a'', js ''__proto__''] (js ''1'') (js ''__proto__'') = None"
  by (simp add: sp_parseCSV_def rm_parseCSV_def sp_parse_row_def rm_parse_row_def trim_def
      isWhiteSpace_def record_set_def proto_key_def or_else_def at_index_def js_def)

section \<open>Properties of the stockpicker route\<close>

lemma mset_insort_cmp: "mset (insort_cmp cmp x xs) = add_mset x (mset xs)"
  by (induction xs) auto

lemma mset_sort_cmp: "mset (sort_cmp cmp xs) = mset xs"
  by (induction xs) (auto simp: sort_cmp_def mset_insort_cmp)

lemma set_insort_cmp: "set (insort_cmp cmp x xs) = insert x (set xs)"
  by (induction xs) auto

lemma sorted_insort_cmp:
  fixes key :: "'a \<Rightarrow> 'k::linorder"
  assumes cmp: "\<And>a b. cmp a b \<le> 0 \<longleftrightarrow> key b \<le> key a"
  shows "sorted_wrt (\<lambda>a b. key b \<le> key a) xs \<Longrightarrow>
         sorted_wrt (\<lambda>a b. key b \<le> key a) (insort_cmp cmp x xs)"
proof (induction xs)
  case Nil
  then show ?case by simp
next
  case (Cons y ys)
  show ?case
  proof (cases "cmp x y \<le> 0")
    case True
    with Cons.prems cmp show ?thesis by (auto intro: order_trans)
  next
    case False
    then have "key x \<le> key y" using cmp [of x y] by simp
    with False Cons show ?thesis by (auto simp: set_insort_cmp)
  qed
qed

lemma sorted_sort_cmp:
  fixes key :: "'a \<Rightarrow> 'k::linorder"
  assumes cmp: "\<And>a b. cmp a b \<le> 0 \<longleftrightarrow> key b \<le> key a"
  shows "sorted_wrt (\<lambda>a b. key b \<le> key a) (sort_cmp cmp xs)"
  by (induction xs) (auto simp: sort_cmp_def intro: sorted_insort_cmp [OF cmp])

lemma localeCompare_le: "localeCompare a b \<le> 0 \<longleftrightarrow> a \<le> b"
  by (auto simp: localeCompare_def)

lemma sorted_sp_files:
  "sorted_wrt (\<lambda>a b. slice (name b) 0 8 \<le> slice (name a) 0 8) (sort_cmp sp_compare files)"
  by (rule sorted_sort_cmp) (simp add: sp_compare_def localeCompare_le)

lemma promise_all_Inr:
  "(\<And>x. x \<in> set xs \<Longrightarrow> f x = Inr (g x)) \<Longrightarrow> promise_all f xs = Inr (map g xs)"
  by (induction xs) auto

lemma split_prefix:
  "sep \<notin> set a \<Longrightarrow> split sep (a @ sep # rest) = a # split sep rest"
  by (induction a) (auto split: list.splits)

lemma hd_split: "hd (split sep s) = takeWhile (\<lambda>c. c \<noteq> sep) s"
  by (induction s) (auto simp: split_not_Nil split: list.splits)

lemma isDigit_not_underscore: "list_all isDigit ds \<Longrightarrow> UNDERSCORE \<notin> set ds"
  by (auto simp: list_all_iff isDigit_def)

lemma matched_name_shape:
  assumes "matches_selected_stocks s"
  shows "s = take 8 s @ UNDERSCORE # drop 9 s" "list_all isDigit (take 8 s)" "length (take 8 s) = 8"
proof -
  from assms have len: "8 < length s" and u: "s ! 8 = UNDERSCORE" and d: "list_all isDigit (take 8 s)"
    by (auto simp: matches_selected_stocks_def Let_def selected_suffix_def js_def)
  from len u show "s = take 8 s @ UNDERSCORE # drop 9 s"
    using id_take_nth_drop [of 8 s] by simp
  show "list_all isDigit (take 8 s)" by fact
  from len show "length (take 8 s) = 8" by simp
qed

lemma matched_name_split:
  assumes "matches_selected_stocks s"
  shows "\<exists>rest. take 2 (split UNDERSCORE s) = [take 8 s, type_segment s] "
proof -
  have "split UNDERSCORE s = split UNDERSCORE (take 8 s @ UNDERSCORE # drop 9 s)"
    using matched_name_shape(1) [OF assms] by simp
  also have "\<dots> = take 8 s # split UNDERSCORE (drop 9 s)"
    using matched_name_shape(2) [OF assms] by (intro split_prefix isDigit_not_underscore)
  finally show ?thesis
    using split_not_Nil [of UNDERSCORE "drop 9 s"] hd_split [of UNDERSCORE "drop 9 s"]
    by (cases "split UNDERSCORE (drop 9 s)") (auto simp: type_segment_def)
qed

lemma replace_first_absent: "a \<notin> set s \<Longrightarrow> replace_first a b s = s"
  by (induction s) auto

lemma type_segment_no_underscore: "UNDERSCORE \<notin> set (type_segment s)"
  by (auto simp: type_segment_def dest: set_takeWhileD)

lemma sp_item_matched:
  assumes "isStockFile file" "readFile fs (path_join directory (name file)) = Inr content"
  shows "sp_item fs directory file =
     Inr \<lparr>title = take 8 (name file) @ js '' '' @ capitalize (type_segment (name file)) @ js '' '' @ zh_pick_result,
          description = sp_description (capitalize (type_segment (name file))) (take 8 (name file)) (sp_records content),
          pubDate = date_of (take 8 (name file)),
          category = [type_segment (name file)]\<rparr>"
proof -
  from assms(1) have m: "matches_selected_stocks (name file)" by (simp add: isStockFile_def)
  from matched_name_split [OF m] assms(2) show ?thesis
    by (auto simp add: sp_item_def Let_def sp_records_def sp_parseCSV_Inr 
        replace_first_absent type_segment_no_underscore)
qed


lemma stockpicker_feed:
  assumes "readdir fs directory = Inr files"
    and "\<forall>file \<in> set files. isStockFile file \<longrightarrow>
           (\<exists>content. readFile fs (path_join directory (name file)) = Inr content)"
  shows "\<exists>items. stockpicker_handler fs directory =
           Inr \<lparr>feed_title = sp_feed_title, feed_link = Some directory,
                feed_description = sp_feed_description, item = items\<rparr> \<and>
         map Inr items = map (sp_item fs directory) (sort_cmp sp_compare (filter isStockFile files)) \<and>
         map (\<lambda>i. take 8 (title i)) items =
           map (\<lambda>f. slice (name f) 0 8) (sort_cmp sp_compare (filter isStockFile files))"
proof -
  let ?sorted = "sort_cmp sp_compare (filter isStockFile files)"
  define g where "g f = (case sp_item fs directory f of Inr i \<Rightarrow> i)" for f
  have in_sorted: "isStockFile f \<and> f \<in> set files" if "f \<in> set ?sorted" for f
  proof -
    from that have "f \<in># mset ?sorted" by simp
    then show ?thesis by (simp add: mset_sort_cmp)
  qed
  have item_ok: "sp_item fs directory f = Inr (g f) \<and> take 8 (title (g f)) = slice (name f) 0 8"
    if "f \<in> set ?sorted" for f
  proof -
    from in_sorted [OF that] assms(2) obtain content
      where c: "readFile fs (path_join directory (name f)) = Inr content" and m: "isStockFile f"
      by blast
    from m have "length (take 8 (name f)) = 8"
      by (intro matched_name_shape(3)) (simp add: isStockFile_def)
    then show ?thesis
      using sp_item_matched [OF m c] by (simp add: g_def slice_def)
  qed
  then have "promise_all (sp_item fs directory) ?sorted = Inr (map g ?sorted)"
    by (intro promise_all_Inr) simp
  moreover have "map Inr (map g ?sorted) = map (sp_item fs directory) ?sorted"
    using item_ok by simp
  moreover have "map (\<lambda>i. take 8 (title i)) (map g ?sorted) = map (\<lambda>f. slice (name f) 0 8) ?sorted"
    using item_ok by simp
  ultimately show ?thesis
    using assms(1) by (simp add: stockpicker_handler_def Let_def)
qed

text \<open>
  Claim C1. When the directory can be listed and every file matching the stockpicker
  pattern can be read, the handler returns a feed with exactly one item per matching
  file, and the items are in descending order of the eight-character date prefix, which
  is the start of each item's title.
\<close>

theorem stockpicker_items_sorted:
  assumes "readdir fs directory = Inr files"
    and "\<forall>file \<in> set files. isStockFile file \<longrightarrow>
           (\<exists>content. readFile fs (path_join directory (name file)) = Inr content)"
  shows "\<exists>feed. stockpicker_handler fs directory = Inr feed \<and>
           length (item feed) = length (filter isStockFile files) \<and>
           mset (map (\<lambda>i. take 8 (title i)) (item feed)) =
             mset (map (\<lambda>f. slice (name f) 0 8) (filter isStockFile files)) \<and>
           sorted_wrt (\<lambda>a b. take 8 (title b) \<le> take 8 (title a)) (item feed)"
proof -
  let ?sorted = "sort_cmp sp_compare (filter isStockFile files)"
  from stockpicker_feed [OF assms] obtain items where
    h: "stockpicker_handler fs directory =
           Inr \<lparr>feed_title = sp_feed_title, feed_link = Some directory,
                feed_description = sp_feed_description, item = items\<rparr>"
    and d: "map (\<lambda>i. take 8 (title i)) items = map (\<lambda>f. slice (name f) 0 8) ?sorted"
    by blast
  from d have "length items = length ?sorted" by (metis length_map)
  also have "\<dots> = length (filter isStockFile files)"
    by (metis mset_sort_cmp size_mset)
  finally have len: "length items = length (filter isStockFile files)" .
  have "mset (map (\<lambda>i. take 8 (title i)) items) = image_mset (\<lambda>f. slice (name f) 0 8) (mset ?sorted)"
    by (simp add: d)
  then have ms: "mset (map (\<lambda>i. take 8 (title i)) items) =
      mset (map (\<lambda>f. slice (name f) 0 8) (filter isStockFile files))"
    by (simp add: mset_sort_cmp)
  have "sorted_wrt (\<lambda>a b. b \<le> a) (map (\<lambda>f. slice (name f) 0 8) ?sorted)"
    using sorted_sp_files [of "filter isStockFile files"] by (simp add: sorted_wrt_map)
  then have "sorted_wrt (\<lambda>a b. b \<le> a) (map (\<lambda>i. take 8 (title i)) items)"
    by (simp add: d)
  then have so: "sorted_wrt (\<lambda>a b. take 8 (title b) \<le> take 8 (title a)) items"
    by (simp add: sorted_wrt_map)
  from h len ms so show ?thesis by simp
qed

lemma stock_files_matching:
  "filter isStockFile stock_files =
     [\<lparr>name = js ''20240102_value_selected_stocks.csv'', isFile = True\<rparr>,
      \<lparr>name = js ''20240105_growth_selected_stocks.csv'', isFile = True\<rparr>,
      \<lparr>name = js ''20240103_small_cap_selected_stocks.csv'', isFile = True\<rparr>]"
  by (simp add: stock_files_def isStockFile_def endsWith_def matches_selected_stocks_def
      selected_label_def selected_suffix_def isDigit_def isWordChar_def js_def)

theorem stockpicker_items_sorted_witness:
  "readdir stock_dir (js ''/data'') = Inr stock_files \<and>
   length (filter isStockFile stock_files) = 3 \<and>
   (\<exists>feed. stockpicker_handler stock_dir (js ''/data'') = Inr feed \<and>
      length (item feed) = 3 \<and>
      mset (map (\<lambda>i. take 8 (title i)) (item feed)) =
        {#js ''20240102'', js ''20240105'', js ''20240103''#} \<and>
      sorted_wrt (\<lambda>a b. take 8 (title b) \<le> take 8 (title a)) (item feed))"
proof -
  have r: "readdir stock_dir (js ''/data'') = Inr stock_files"
    by (simp add: stock_dir_def)
  have ok: "\<forall>file \<in> set stock_files. isStockFile file \<longrightarrow>
      (\<exists>content. readFile stock_dir (path_join (js ''/data'') (name file)) = Inr content)"
    by (simp add: stock_dir_def stock_files_def path_join_def path_normalize_def js_def Let_def)
  have n: "length (filter isStockFile stock_files) = 3"
    by (simp add: stock_files_matching)
  have m: "mset (map (\<lambda>f. slice (name f) 0 8) (filter isStockFile stock_files)) =
      {#js ''20240102'', js ''20240105'', js ''20240103''#}"
    by (simp add: stock_files_matching slice_def js_def)
  from stockpicker_items_sorted [OF r ok] show ?thesis
    unfolding n m using r n by simp
qed

lemma matched_name_label:
  assumes "matches_selected_stocks s"
  shows "drop 9 s = selected_label s @ selected_suffix" "selected_label s \<noteq> []"
proof -
  from assms have len: "9 + 1 + length selected_suffix \<le> length s"
    and suf: "drop (length s - length selected_suffix) s = selected_suffix"
    by (auto simp: matches_selected_stocks_def)
  have "drop 9 s = take (length s - 9 - length selected_suffix) (drop 9 s) @
                   drop (length s - 9 - length selected_suffix) (drop 9 s)"
    by (rule append_take_drop_id [symmetric])
  also have "drop (length s - 9 - length selected_suffix) (drop 9 s) = selected_suffix"
    using len suf by (simp add: add.commute)
  finally show "drop 9 s = selected_label s @ selected_suffix"
    by (simp add: selected_label_def)
  from len show "selected_label s \<noteq> []"
    by (auto simp: selected_label_def)
qed

lemma takeWhile_before_sep:
  "takeWhile (\<lambda>c. c \<noteq> sep) (xs @ sep # ys) = takeWhile (\<lambda>c. c \<noteq> sep) xs"
  by (induction xs) auto

lemma type_segment_label:
  assumes "matches_selected_stocks s"
  shows "type_segment s = takeWhile (\<lambda>c. c \<noteq> UNDERSCORE) (selected_label s)"
    and "UNDERSCORE \<notin> set (selected_label s) \<Longrightarrow> type_segment s = selected_label s"
proof -
  have suf: "selected_suffix = UNDERSCORE # js ''selected_stocks.csv''"
    by (simp add: selected_suffix_def js_def)
  show "type_segment s = takeWhile (\<lambda>c. c \<noteq> UNDERSCORE) (selected_label s)"
    unfolding type_segment_def matched_name_label(1) [OF assms] suf
    by (rule takeWhile_before_sep)
  then show "UNDERSCORE \<notin> set (selected_label s) \<Longrightarrow> type_segment s = selected_label s"
    by (auto simp: takeWhile_eq_all_conv)
qed

lemma matches_selected_stocks_iff:
  "matches_selected_stocks s \<longleftrightarrow>
     (\<exists>d w. s = d @ UNDERSCORE # w @ selected_suffix \<and> length d = 8 \<and> list_all isDigit d \<and>
            w \<noteq> [] \<and> list_all isWordChar w)"
proof
  assume m: "matches_selected_stocks s"
  have "s = take 8 s @ UNDERSCORE # selected_label s @ selected_suffix"
    using matched_name_shape(1) [OF m] matched_name_label(1) [OF m] by simp
  moreover from m have "list_all isWordChar (selected_label s)"
    by (simp add: matches_selected_stocks_def)
  ultimately show "\<exists>d w. s = d @ UNDERSCORE # w @ selected_suffix \<and> length d = 8 \<and>
      list_all isDigit d \<and> w \<noteq> [] \<and> list_all isWordChar w"
    using matched_name_shape(2,3) [OF m] matched_name_label(2) [OF m] by blast
next
  assume "\<exists>d w. s = d @ UNDERSCORE # w @ selected_suffix \<and> length d = 8 \<and> list_all isDigit d \<and>
            w \<noteq> [] \<and> list_all isWordChar w"
  then obtain d w where s: "s = d @ UNDERSCORE # w @ selected_suffix" and d: "length d = 8"
    "list_all isDigit d" and w: "w \<noteq> []" "list_all isWordChar w"
    by blast
  from w(1) have "1 \<le> length w" by (cases w) auto
  with s d w show "matches_selected_stocks s"
    by (simp add: matches_selected_stocks_def selected_label_def nth_append)
qed

lemma endsWith_append: "endsWith (a @ b) b"
  by (simp add: endsWith_def)

lemma selected_suffix_csv: "endsWith (w @ selected_suffix) (js ''.csv'')"
proof -
  have "w @ selected_suffix = (w @ js ''_selected_stocks'') @ js ''.csv''"
    by (simp add: selected_suffix_def js_def)
  then show ?thesis by (simp only: endsWith_append)
qed

lemma isStockFile_iff:
  "isStockFile file \<longleftrightarrow> isFile file \<and> matches_selected_stocks (name file)"
proof -
  have "endsWith (name file) (js ''.csv'')" if "matches_selected_stocks (name file)"
  proof -
    from that obtain d w where "name file = (d @ UNDERSCORE # w) @ selected_suffix"
      by (auto simp: matches_selected_stocks_iff)
    then show ?thesis by (simp only: selected_suffix_csv)
  qed
  then show ?thesis by (auto simp: isStockFile_def)
qed


text \<open>Every matching file of a readable directory has its item in the feed.\<close>

lemma stockpicker_item_in_feed:
  assumes "readdir fs directory = Inr files"
    and "\<forall>file \<in> set files. isStockFile file \<longrightarrow>
           (\<exists>content. readFile fs (path_join directory (name file)) = Inr content)"
    and "f \<in> set files" "isStockFile f"
  shows "\<exists>feed it. stockpicker_handler fs directory = Inr feed \<and> it \<in> set (item feed) \<and>
           sp_item fs directory f = Inr it"
proof -
  let ?sorted = "sort_cmp sp_compare (filter isStockFile files)"
  from stockpicker_feed [OF assms(1,2)] obtain items where
    h: "stockpicker_handler fs directory =
           Inr \<lparr>feed_title = sp_feed_title, feed_link = Some directory,
                feed_description = sp_feed_description, item = items\<rparr>"
    and m: "map Inr items = map (sp_item fs directory) ?sorted"
    by blast
  from assms(3,4) have "f \<in># mset ?sorted" by (simp add: mset_sort_cmp)
  then have "f \<in> set ?sorted" by simp
  then have "sp_item fs directory f \<in> set (map (sp_item fs directory) ?sorted)" by simp
  with m have "sp_item fs directory f \<in> Inr ` set items" by (metis set_map)
  then obtain it where "it \<in> set items" "sp_item fs directory f = Inr it" by blast
  with h show ?thesis by simp
qed

lemma example_records_text:
  "sp_description ft ds (sp_records example_csv) =
     js ''### '' @ ft @ js '' '' @ zh_pick_result @ js ''\<newline>\<newline>**'' @ zh_date @ js ''**: '' @ ds @
     js ''\<newline>**'' @ zh_pick_count @ js ''**: 1'' @ zh_counter @
     js ''\<newline>\<newline>1. **PingAn** (000001.SZ)\<newline>   - '' @ zh_industry @
     js '': Banking\<newline>   - '' @ zh_weight @
     js '': 0.05\<newline>   - PE: 10.2\<newline>   - PE'' @ zh_percentile @ js '': 50\<newline>\<newline>''"
  by (simp add: sp_description_def sp_records_def example_csv_def js_def sp_parseCSV_def trim_def
      isWhiteSpace_def sp_parse_row_def or_else_def at_index_def record_set_def proto_key_def sp_record_text_def template_def
      truthy_def show_nat.simps)

lemma date_of_example: "date_of (js ''20240102'') = NewDate 2024 0 2"
  by (simp add: date_of_def parseInt_def slice_def js_def isWhiteSpace_def is_radix_digit_def
      digit_value_def digits_value_def Let_def)

text \<open>
  Claim C2, amended. The name \<open>20240102_selected_stocks.csv\<close> does not match the
  route's pattern, which asks for a type label between the date and the suffix. For a
  file \<open>20240102_LABEL_selected_stocks.csv\<close> with a non-empty label of word characters
  and the content of the example, the feed has an item whose publication date is
  2 January 2024 and whose description shows the name \<open>PingAn\<close>, the code
  \<open>000001.SZ\<close>, the weight \<open>0.05\<close> and the industry \<open>Banking\<close>.
\<close>

theorem stockpicker_example_item:
  assumes "readdir fs directory = Inr files"
    and "\<forall>file \<in> set files. isStockFile file \<longrightarrow>
           (\<exists>content. readFile fs (path_join directory (name file)) = Inr content)"
    and "f \<in> set files" "isFile f"
    and "name f = js ''20240102_'' @ label @ js ''_selected_stocks.csv''"
    and "label \<noteq> []" "list_all isWordChar label"
    and "readFile fs (path_join directory (name f)) = Inr example_csv"
  shows "\<exists>feed it. stockpicker_handler fs directory = Inr feed \<and> it \<in> set (item feed) \<and>
           pubDate it = NewDate 2024 0 2 \<and>
           description it =
             js ''### '' @ capitalize (takeWhile (\<lambda>c. c \<noteq> UNDERSCORE) label) @ js '' '' @
             zh_pick_result @ js ''\<newline>\<newline>**'' @ zh_date @ js ''**: 20240102\<newline>**'' @
             zh_pick_count @ js ''**: 1'' @ zh_counter @
             js ''\<newline>\<newline>1. **PingAn** (000001.SZ)\<newline>   - '' @ zh_industry @
             js '': Banking\<newline>   - '' @ zh_weight @
             js '': 0.05\<newline>   - PE: 10.2\<newline>   - PE'' @ zh_percentile @
             js '': 50\<newline>\<newline>''"
proof -
  have n: "name f = js ''20240102'' @ UNDERSCORE # label @ selected_suffix"
    by (simp add: assms(5) selected_suffix_def js_def)
  have m: "matches_selected_stocks (name f)"
    unfolding matches_selected_stocks_iff
    using n assms(6,7) by (intro exI [of _ "js ''20240102''"] exI [of _ label])
      (simp add: js_def isDigit_def)
  with assms(4) have sf: "isStockFile f" by (simp add: isStockFile_iff)
  have t8: "take 8 (name f) = js ''20240102''" by (simp add: n js_def)
  have "drop 9 (name f) = label @ selected_suffix" by (simp add: n js_def)
  then have ts: "type_segment (name f) = takeWhile (\<lambda>c. c \<noteq> UNDERSCORE) label"
    by (simp add: type_segment_def selected_suffix_def js_def takeWhile_before_sep)
  from stockpicker_item_in_feed [OF assms(1,2,3) sf] obtain feed it where
    h: "stockpicker_handler fs directory = Inr feed" "it \<in> set (item feed)"
    and it: "sp_item fs directory f = Inr it"
    by blast
  from it sp_item_matched [OF sf assms(8)] have
    "pubDate it = NewDate 2024 0 2"
    "description it = sp_description (capitalize (takeWhile (\<lambda>c. c \<noteq> UNDERSCORE) label))
        (js ''20240102'') (sp_records example_csv)"
    by (auto simp: t8 ts date_of_example)
  with h show ?thesis
    unfolding example_records_text by (intro exI [of _ feed] exI [of _ it]) (simp add: js_def)
qed

theorem stockpicker_example_item_witness:
  "\<exists>feed it. stockpicker_handler stock_dir (js ''/data'') = Inr feed \<and> it \<in> set (item feed) \<and>
     pubDate it = NewDate 2024 0 2 \<and>
     description it =
       js ''### Value '' @ zh_pick_result @ js ''\<newline>\<newline>**'' @ zh_date @
       js ''**: 20240102\<newline>**'' @ zh_pick_count @ js ''**: 1'' @ zh_counter @
       js ''\<newline>\<newline>1. **PingAn** (000001.SZ)\<newline>   - '' @ zh_industry @
       js '': Banking\<newline>   - '' @ zh_weight @
       js '': 0.05\<newline>   - PE: 10.2\<newline>   - PE'' @ zh_percentile @
       js '': 50\<newline>\<newline>''"
proof -
  let ?f = "\<lparr>name = js ''20240102_value_selected_stocks.csv'', isFile = True\<rparr>"
  have r: "readdir stock_dir (js ''/data'') = Inr stock_files"
    by (simp add: stock_dir_def)
  have ok: "\<forall>file \<in> set stock_files. isStockFile file \<longrightarrow>
      (\<exists>content. readFile stock_dir (path_join (js ''/data'') (name file)) = Inr content)"
    by (simp add: stock_dir_def stock_files_def path_join_def path_normalize_def js_def Let_def)
  have f: "?f \<in> set stock_files" "isFile ?f" by (simp_all add: stock_files_def)
  have n: "name ?f = js ''20240102_'' @ js ''value'' @ js ''_selected_stocks.csv''"
    by (simp add: js_def)
  have l: "js ''value'' \<noteq> []" "list_all isWordChar (js ''value'')"
    by (simp_all add: js_def isWordChar_def)
  have c: "readFile stock_dir (path_join (js ''/data'') (name ?f)) = Inr example_csv"
    by (simp add: stock_dir_def path_join_def path_normalize_def js_def Let_def)
  have cap: "capitalize (takeWhile (\<lambda>c. c \<noteq> UNDERSCORE) (js ''value'')) = js ''Value''"
    by (simp add: capitalize_def toUpperCase1_def isLineTerminator_def js_def)
  from stockpicker_example_item [OF r ok f n l c] show ?thesis
    unfolding cap by (simp add: js_def)
qed

text \<open>
  The file name of the specification's example has no type label: the pattern rejects
  it and the feed of a directory holding only that file is empty.
\<close>

theorem spec_example_name_counterexample:
  "matches_selected_stocks (js ''20240102_selected_stocks.csv'') = False \<and>
   readdir spec_example_dir (js ''/data'') =
     Inr [\<lparr>name = js ''20240102_selected_stocks.csv'', isFile = True\<rparr>] \<and>
   readFile spec_example_dir (js ''/data/20240102_selected_stocks.csv'') = Inr example_csv \<and>
   stockpicker_handler spec_example_dir (js ''/data'') =
     Inr \<lparr>feed_title = sp_feed_title, feed_link = Some (js ''/data''),
          feed_description = sp_feed_description, item = []\<rparr>"
  by (simp add: spec_example_dir_def stockpicker_handler_def isStockFile_def
      matches_selected_stocks_def selected_label_def selected_suffix_def sort_cmp_def js_def)


text \<open>
  Claim C7, amended. For a matched file whose label (the part between the date and
  \<open>_selected_stocks.csv\<close>) has no underscore, the item's category is the label as it
  stands in the name, and the title is the date, the label with its first character in
  upper case, and the fixed words. The label is not capitalised in the category.
\<close>

theorem type_label_single_segment:
  assumes "readdir fs directory = Inr files"
    and "\<forall>file \<in> set files. isStockFile file \<longrightarrow>
           (\<exists>content. readFile fs (path_join directory (name file)) = Inr content)"
    and "f \<in> set files" "isStockFile f"
    and "UNDERSCORE \<notin> set (selected_label (name f))"
  shows "\<exists>feed it. stockpicker_handler fs directory = Inr feed \<and> it \<in> set (item feed) \<and>
           sp_item fs directory f = Inr it \<and>
           category it = [selected_label (name f)] \<and>
           title it = take 8 (name f) @ js '' '' @ capitalize (selected_label (name f)) @ js '' '' @
                      zh_pick_result \<and>
           capitalize (selected_label (name f)) =
             toUpperCase1 (hd (selected_label (name f))) @ tl (selected_label (name f))"
proof -
  from assms(4) have m: "matches_selected_stocks (name f)" by (simp add: isStockFile_def)
  have ts: "type_segment (name f) = selected_label (name f)"
    using type_segment_label(2) [OF m assms(5)] .
  from assms(2,3,4) obtain content where
    c: "readFile fs (path_join directory (name f)) = Inr content" by blast
  from stockpicker_item_in_feed [OF assms(1,2,3,4)] obtain feed it where
    h: "stockpicker_handler fs directory = Inr feed" "it \<in> set (item feed)"
    and it: "sp_item fs directory f = Inr it"
    by blast
  from it sp_item_matched [OF assms(4) c] have
    "category it = [selected_label (name f)]"
    "title it = take 8 (name f) @ js '' '' @ capitalize (selected_label (name f)) @ js '' '' @
                zh_pick_result"
    by (auto simp: ts)
  moreover have "capitalize (selected_label (name f)) =
             toUpperCase1 (hd (selected_label (name f))) @ tl (selected_label (name f))"
  proof -
    from m have w: "list_all isWordChar (selected_label (name f))"
      by (simp add: matches_selected_stocks_def)
    from matched_name_label(2) [OF m] obtain c cs where l: "selected_label (name f) = c # cs"
      by (cases "selected_label (name f)") auto
    with w have "isWordChar c" by simp
    then have "\<not> isLineTerminator c" by (auto simp: isWordChar_def isLineTerminator_def)
    with l show ?thesis by (simp add: capitalize_def)
  qed
  ultimately show ?thesis using h it by blast
qed

theorem type_label_single_segment_witness:
  "\<exists>feed it. stockpicker_handler stock_dir (js ''/data'') = Inr feed \<and> it \<in> set (item feed) \<and>
     category it = [js ''growth''] \<and>
     title it = js ''20240105 Growth '' @ zh_pick_result"
proof -
  let ?f = "\<lparr>name = js ''20240105_growth_selected_stocks.csv'', isFile = True\<rparr>"
  have r: "readdir stock_dir (js ''/data'') = Inr stock_files"
    by (simp add: stock_dir_def)
  have ok: "\<forall>file \<in> set stock_files. isStockFile file \<longrightarrow>
      (\<exists>content. readFile stock_dir (path_join (js ''/data'') (name file)) = Inr content)"
    by (simp add: stock_dir_def stock_files_def path_join_def path_normalize_def js_def Let_def)
  have f: "?f \<in> set stock_files" by (simp add: stock_files_def)
  have sf: "isStockFile ?f"
    by (simp add: isStockFile_def endsWith_def matches_selected_stocks_def
      selected_label_def selected_suffix_def isDigit_def isWordChar_def js_def)
  have l: "selected_label (name ?f) = js ''growth''"
    by (simp add: selected_label_def selected_suffix_def js_def)
  have u: "UNDERSCORE \<notin> set (selected_label (name ?f))"
    unfolding l by (simp add: js_def)
  have cap: "capitalize (js ''growth'') = js ''Growth''"
    by (simp add: capitalize_def toUpperCase1_def isLineTerminator_def js_def)
  from type_label_single_segment [OF r ok f sf u] show ?thesis
    unfolding l cap by (auto simp: js_def)
qed

text \<open>
  The claim as it is written fails on the category: it is the label as written in the
  name, not the capitalised label of the title.
\<close>

theorem type_label_category_counterexample:
  "isStockFile \<lparr>name = js ''20240105_growth_selected_stocks.csv'', isFile = True\<rparr> \<and>
   capitalize (selected_label (js ''20240105_growth_selected_stocks.csv'')) = js ''Growth'' \<and>
   map_sum id category
     (sp_item stock_dir (js ''/data'')
        \<lparr>name = js ''20240105_growth_selected_stocks.csv'', isFile = True\<rparr>) =
     Inr [js ''growth''] \<and>
   js ''growth'' \<noteq> js ''Growth''"
  by (simp add: isStockFile_def endsWith_def matches_selected_stocks_def
      selected_label_def selected_suffix_def isDigit_def isWordChar_def js_def
      capitalize_def toUpperCase1_def isLineTerminator_def
      sp_item_def stock_dir_def path_join_def path_normalize_def Let_def sp_parseCSV_Inr)

text \<open>
  A label of several segments is cut at its first underscore: only \<open>small\<close> of
  \<open>small_cap\<close> reaches the category and the title, and the replacement of an underscore
  by a space in the source never finds one.
\<close>

lemma multi_segment_label_cut:
  "selected_label (js ''20240103_small_cap_selected_stocks.csv'') = js ''small_cap'' \<and>
   map_sum id (\<lambda>it. (category it, title it))
     (sp_item stock_dir (js ''/data'')
        \<lparr>name = js ''20240103_small_cap_selected_stocks.csv'', isFile = True\<rparr>) =
     Inr ([js ''small''], js ''20240103 Small '' @ zh_pick_result)"
  by (simp add: selected_label_def selected_suffix_def js_def
      capitalize_def toUpperCase1_def isLineTerminator_def
      sp_item_def stock_dir_def path_join_def path_normalize_def Let_def sp_parseCSV_Inr)

section \<open>Properties of the rotation-monitor route\<close>

lemma group_by_date_no_top: "group_by_date directory [] bottomFiles imageFiles = []"
proof -
  have b: "foldl (add_bottom directory) [] bs = []" for bs
    by (induction bs) (simp_all add: add_bottom_def)
  have i: "foldl (add_image directory) [] is = []" for "is"
    by (induction "is") (simp_all add: add_image_def)
  show ?thesis by (simp add: group_by_date_def b i)
qed

subsection \<open>Paths\<close>

lemma split_append_sep: "split sep (a @ sep # b) = split sep a @ split sep b"
  by (induction a) (auto simp: split_not_Nil split: list.splits)

lemma split_no_sep: "sep \<notin> set a \<Longrightarrow> split sep a = [a]"
  by (induction a) (auto split: list.splits)

lemma normalize_segments_append:
  "normalize_segments al res (xs @ ys) = normalize_segments al (normalize_segments al res xs) ys"
  by (induction xs arbitrary: res) auto

lemma join_with_snoc:
  "join_with sep (st @ [b]) = (if st = [] then b else join_with sep st @ sep # b)"
  by (induction sep st rule: join_with.induct) auto

text \<open>A plain file name stays the last segment of the joined path.\<close>

lemma path_join_plain_name:
  assumes "b \<noteq> []" "SLASH \<notin> set b" "b \<noteq> [DOT]" "b \<noteq> [DOT, DOT]"
  shows "\<exists>pre. path_join a b = pre @ b \<and> (pre = [] \<or> last pre = SLASH)"
proof -
  define p where "p = (if a = [] then b else a @ SLASH # b)"
  define al where "al = (hd p \<noteq> SLASH)"
  define st where "st = (if a = [] then [] else normalize_segments al [] (split SLASH a))"
  have pj: "path_join a b = path_normalize p"
    using assms(1) by (simp add: path_join_def p_def)
  have "last b \<noteq> SLASH"
    using assms(1,2) by (metis last_in_set)
  then have pne: "p \<noteq> []" and lp: "last p \<noteq> SLASH"
    using assms(1) by (auto simp: p_def)
  have "split SLASH p = (if a = [] then [] else split SLASH a) @ [b]"
    using assms(2) by (simp add: p_def split_append_sep split_no_sep)
  then have "normalize_segments al [] (split SLASH p) = st @ [b]"
    using assms(1,3,4) by (auto simp: st_def normalize_segments_append)
  then have q: "join_with SLASH (normalize_segments al [] (split SLASH p)) =
      (if st = [] then b else join_with SLASH st @ SLASH # b)"
    by (simp add: join_with_snoc)
  show ?thesis
  proof (cases "st = []")
    case True
    with q pne lp assms(1) have "path_join a b = (if hd p = SLASH then [SLASH] else []) @ b"
      by (simp add: pj path_normalize_def al_def Let_def)
    then show ?thesis by (intro exI [of _ "if hd p = SLASH then [SLASH] else []"]) simp
  next
    case False
    with q pne lp have "path_join a b =
        ((if hd p = SLASH then [SLASH] else []) @ join_with SLASH st @ [SLASH]) @ b"
      by (simp add: pj path_normalize_def al_def Let_def)
    then show ?thesis
      by (intro exI [of _ "(if hd p = SLASH then [SLASH] else []) @ join_with SLASH st @ [SLASH]"])
        simp
  qed
qed

lemma path_basename_plain_name:
  assumes "b \<noteq> []" "SLASH \<notin> set b" "pre = [] \<or> last pre = SLASH"
  shows "path_basename (pre @ b) = b"
proof -
  from assms(1,2) have "hd (rev b) \<noteq> SLASH"
    by (metis hd_rev last_in_set)
  with assms(1) have d: "dropWhile (\<lambda>c. c = SLASH) (rev b @ rev pre) = rev b @ rev pre"
    by (cases "rev b") auto
  have "takeWhile (\<lambda>c. c \<noteq> SLASH) (rev b @ rev pre) = rev b"
  proof (cases "pre = []")
    case True
    with assms(2) show ?thesis by (auto simp: takeWhile_eq_all_conv)
  next
    case False
    with assms(3) obtain pre' where "pre = pre' @ [SLASH]"
      by (metis append_butlast_last_id)
    then have "takeWhile (\<lambda>c. c \<noteq> SLASH) (rev b @ rev pre) =
        takeWhile (\<lambda>c. c \<noteq> SLASH) (rev b @ SLASH # rev pre')" by simp
    also have "\<dots> = rev b"
      using assms(2) by (auto simp: takeWhile_before_sep takeWhile_eq_all_conv)
    finally show ?thesis .
  qed
  with d show ?thesis by (simp add: path_basename_def)
qed

lemma path_join_nonempty:
  assumes "b \<noteq> []" "SLASH \<notin> set b" "b \<noteq> [DOT]" "b \<noteq> [DOT, DOT]"
  shows "path_join a b \<noteq> []"
  using path_join_plain_name [OF assms, of a] assms(1) by auto

lemma path_basename_join:
  assumes "b \<noteq> []" "SLASH \<notin> set b" "b \<noteq> [DOT]" "b \<noteq> [DOT, DOT]"
  shows "path_basename (path_join a b) = b"
proof -
  from path_join_plain_name [OF assms, of a] obtain pre where
    "path_join a b = pre @ b" "pre = [] \<or> last pre = SLASH" by blast
  with path_basename_plain_name [OF assms(1,2), of pre] show ?thesis by simp
qed

subsection \<open>The map of files by date\<close>

lemma map_of_map_set: "map_of (map_set k v m) = (map_of m)(k \<mapsto> v)"
  by (induction m) (auto simp: fun_eq_iff)

lemma keys_map_set: "fst ` set (map_set k v m) = insert k (fst ` set m)"
  by (induction m) (force split: if_splits)+

lemma distinct_map_set: "distinct (map fst m) \<Longrightarrow> distinct (map fst (map_set k v m))"
proof (induction m)
  case Nil
  then show ?case by simp
next
  case (Cons p m)
  then show ?case
    using keys_map_set [of k v m] by (cases p) auto
qed

lemma map_of_Some_key: "map_of m k = Some v \<Longrightarrow> k \<in> fst ` set m"
  by (metis domI dom_map_of_conv_image_fst)

lemma keys_add_top:
  "fst ` set (add_top directory m f) = insert (date_prefix f) (fst ` set m)"
  by (simp add: add_top_def Let_def keys_map_set)

lemma keys_add_bottom: "fst ` set (add_bottom directory m f) = fst ` set m"
  by (auto simp: add_bottom_def Let_def keys_map_set dest: map_of_Some_key split: option.splits)

lemma keys_add_image: "fst ` set (add_image directory m f) = fst ` set m"
  by (auto simp: add_image_def Let_def keys_map_set dest: map_of_Some_key split: option.splits)

lemma keys_fold_top:
  "fst ` set (foldl (add_top directory) m fs) = fst ` set m \<union> date_prefix ` set fs"
  by (induction fs arbitrary: m) (auto simp: keys_add_top)

lemma keys_fold_bottom: "fst ` set (foldl (add_bottom directory) m fs) = fst ` set m"
  by (induction fs arbitrary: m) (auto simp: keys_add_bottom)

lemma keys_fold_image: "fst ` set (foldl (add_image directory) m fs) = fst ` set m"
  by (induction fs arbitrary: m) (auto simp: keys_add_image)

lemma keys_group_by_date:
  "fst ` set (group_by_date directory topFiles bottomFiles imageFiles) = date_prefix ` set topFiles"
  by (simp add: group_by_date_def keys_fold_image keys_fold_bottom keys_fold_top)

lemma distinct_add_top: "distinct (map fst m) \<Longrightarrow> distinct (map fst (add_top directory m f))"
  by (simp add: add_top_def Let_def distinct_map_set)

lemma distinct_add_bottom: "distinct (map fst m) \<Longrightarrow> distinct (map fst (add_bottom directory m f))"
  by (simp add: add_bottom_def Let_def distinct_map_set split: option.splits)

lemma distinct_add_image: "distinct (map fst m) \<Longrightarrow> distinct (map fst (add_image directory m f))"
  by (simp add: add_image_def Let_def distinct_map_set split: option.splits)

lemma distinct_foldl:
  assumes "\<And>m f. distinct (map fst m) \<Longrightarrow> distinct (map fst (step m f))"
  shows "distinct (map fst m) \<Longrightarrow> distinct (map fst (foldl step m fs))"
  by (induction fs arbitrary: m) (auto intro: assms)

lemma distinct_group_by_date:
  "distinct (map fst (group_by_date directory topFiles bottomFiles imageFiles))"
  unfolding group_by_date_def
  by (intro distinct_foldl distinct_add_top distinct_add_bottom distinct_add_image) simp_all

lemma matched_date_name:
  assumes "matches_date_suffix suf s"
  shows "s = slice s 0 8 @ suf" "length (slice s 0 8) = 8" "list_all isDigit (slice s 0 8)"
proof -
  from assms have d: "drop 8 s = suf" and l: "length (take 8 s) = 8"
    and g: "list_all isDigit (take 8 s)"
    by (simp_all add: matches_date_suffix_def)
  have "s = take 8 s @ drop 8 s" by simp
  also have "\<dots> = slice s 0 8 @ suf" by (simp add: slice_def d)
  finally show "s = slice s 0 8 @ suf" .
  from l show "length (slice s 0 8) = 8" by (simp add: slice_def)
  from g show "list_all isDigit (slice s 0 8)" by (simp add: slice_def)
qed

lemma top_name:
  assumes "isTopCSV f"
  shows "name f = date_prefix f @ top_suffix"
proof -
  from assms have "matches_date_suffix top_suffix (name f)" by (simp add: isTopCSV_def)
  then show ?thesis by (rule matched_date_name(1))
qed

lemma bottom_name:
  assumes "isBottomCSV f"
  shows "name f = date_prefix f @ bottom_suffix"
proof -
  from assms have "matches_date_suffix bottom_suffix (name f)" by (simp add: isBottomCSV_def)
  then show ?thesis by (rule matched_date_name(1))
qed

lemma image_name:
  assumes "isImage f"
  shows "name f = date_prefix f @ image_suffix"
proof -
  from assms have "matches_date_suffix image_suffix (name f)" by (simp add: isImage_def)
  then show ?thesis by (rule matched_date_name(1))
qed

lemma map_of_add_top:
  "map_of (add_top directory m f) =
     (map_of m)(date_prefix f \<mapsto>
        (case map_of m (date_prefix f) of
           None \<Rightarrow> \<lparr>top_path = [], bottom_path = [], image_path = None\<rparr>
         | Some fs \<Rightarrow> fs)\<lparr>top_path := path_join directory (name f)\<rparr>)"
  by (simp add: add_top_def Let_def map_of_map_set)

lemma map_of_add_bottom:
  "map_of (add_bottom directory m f) d =
     (if d = date_prefix f
      then map_option (\<lambda>g. g\<lparr>bottom_path := path_join directory (name f)\<rparr>) (map_of m d)
      else map_of m d)"
  by (simp add: add_bottom_def Let_def map_of_map_set split: option.splits)

lemma map_of_add_image:
  "map_of (add_image directory m f) d =
     (if d = date_prefix f
      then map_option (\<lambda>g. g\<lparr>image_path := Some (path_join directory (name f))\<rparr>) (map_of m d)
      else map_of m d)"
  by (simp add: add_image_def Let_def map_of_map_set split: option.splits)

lemma map_of_fold_top:
  assumes "\<forall>f \<in> set topFiles. isTopCSV f"
  shows "map_of (foldl (add_top directory) [] topFiles) d =
     (if d \<in> date_prefix ` set topFiles
      then Some \<lparr>top_path = path_join directory (d @ top_suffix), bottom_path = [],
                 image_path = None\<rparr>
      else None)"
  using assms
proof (induction topFiles rule: rev_induct)
  case Nil
  then show ?case by simp
next
  case (snoc f fs)
  then have "isTopCSV f" by simp
  then have "name f = date_prefix f @ top_suffix" by (rule top_name)
  then have n: "path_join directory (name f) = path_join directory (date_prefix f @ top_suffix)"
    by (rule arg_cong)
  from snoc show ?case
    by (auto simp: map_of_add_top n)
qed

lemma map_of_fold_bottom:
  assumes "\<forall>f \<in> set bottomFiles. isBottomCSV f"
  shows "map_of (foldl (add_bottom directory) m bottomFiles) d =
     map_option
       (\<lambda>g. if d \<in> date_prefix ` set bottomFiles
            then g\<lparr>bottom_path := path_join directory (d @ bottom_suffix)\<rparr> else g)
       (map_of m d)"
  using assms
proof (induction bottomFiles rule: rev_induct)
  case Nil
  then show ?case by (simp add: option.map_ident)
next
  case (snoc f fs)
  then have "isBottomCSV f" by simp
  then have "name f = date_prefix f @ bottom_suffix" by (rule bottom_name)
  then have n: "path_join directory (name f) = path_join directory (date_prefix f @ bottom_suffix)"
    by (rule arg_cong)
  from snoc show ?case
    by (cases "map_of m d") (auto simp: map_of_add_bottom n)
qed

lemma map_of_fold_image:
  assumes "\<forall>f \<in> set imageFiles. isImage f"
  shows "map_of (foldl (add_image directory) m imageFiles) d =
     map_option
       (\<lambda>g. if d \<in> date_prefix ` set imageFiles
            then g\<lparr>image_path := Some (path_join directory (d @ image_suffix))\<rparr> else g)
       (map_of m d)"
  using assms
proof (induction imageFiles rule: rev_induct)
  case Nil
  then show ?case by (simp add: option.map_ident)
next
  case (snoc f fs)
  then have "isImage f" by simp
  then have "name f = date_prefix f @ image_suffix" by (rule image_name)
  then have n: "path_join directory (name f) = path_join directory (date_prefix f @ image_suffix)"
    by (rule arg_cong)
  from snoc show ?case
    by (cases "map_of m d") (auto simp: map_of_add_image n)
qed

lemma map_of_group_by_date:
  assumes "\<forall>f \<in> set topFiles. isTopCSV f" "\<forall>f \<in> set bottomFiles. isBottomCSV f"
    "\<forall>f \<in> set imageFiles. isImage f"
  shows "map_of (group_by_date directory topFiles bottomFiles imageFiles) d =
     (if d \<in> date_prefix ` set topFiles
      then Some (files_of_date directory bottomFiles imageFiles d) else None)"
  by (simp add: group_by_date_def map_of_fold_image [OF assms(3)] map_of_fold_bottom [OF assms(2)]
      map_of_fold_top [OF assms(1)] files_of_date_def)

lemma isDigit_not_slash: "list_all isDigit d \<Longrightarrow> SLASH \<notin> set d"
  by (auto simp: list_all_iff isDigit_def)

text \<open>A date followed by one of the three suffixes is a plain file name.\<close>

lemma dated_name_plain:
  assumes "list_all isDigit d" "suf \<in> {top_suffix, bottom_suffix, image_suffix}"
  shows "path_join directory (d @ suf) \<noteq> []"
    and "path_basename (path_join directory (d @ suf)) = d @ suf"
proof -
  from assms(2) have s: "SLASH \<notin> set suf" "2 < length suf"
    by (auto simp: top_suffix_def bottom_suffix_def image_suffix_def js_def)
  then have p: "d @ suf \<noteq> []" "SLASH \<notin> set (d @ suf)" "d @ suf \<noteq> [DOT]" "d @ suf \<noteq> [DOT, DOT]"
    using isDigit_not_slash [OF assms(1)]
    by (auto simp: append_eq_Cons_conv)
  show "path_join directory (d @ suf) \<noteq> []" by (rule path_join_nonempty [OF p])
  show "path_basename (path_join directory (d @ suf)) = d @ suf" by (rule path_basename_join [OF p])
qed

lemma top_date_digits: "isTopCSV f \<Longrightarrow> list_all isDigit (date_prefix f)"
  by (rule matched_date_name(3) [of top_suffix]) (simp add: isTopCSV_def)

lemma set_sort_cmp: "set (sort_cmp cmp xs) = set xs"
  by (metis mset_sort_cmp set_mset_mset)

lemma valid_entries:
  assumes "\<forall>f \<in> set topFiles. isTopCSV f" "\<forall>f \<in> set bottomFiles. isBottomCSV f"
    "\<forall>f \<in> set imageFiles. isImage f"
  shows "(d, g) \<in> set (validRotationData (group_by_date directory topFiles bottomFiles imageFiles)) \<longleftrightarrow>
     d \<in> date_prefix ` set topFiles \<and> d \<in> date_prefix ` set bottomFiles \<and>
     g = files_of_date directory bottomFiles imageFiles d"
proof -
  let ?m = "group_by_date directory topFiles bottomFiles imageFiles"
  have in_m: "(d, g) \<in> set ?m \<longleftrightarrow>
      d \<in> date_prefix ` set topFiles \<and> g = files_of_date directory bottomFiles imageFiles d"
  proof -
    have "(d, g) \<in> set ?m \<longleftrightarrow> map_of ?m d = Some g"
      by (rule map_of_eq_Some_iff [symmetric, OF distinct_group_by_date])
    then show ?thesis
      unfolding map_of_group_by_date [OF assms] by auto
  qed
  have paths: "top_path (files_of_date directory bottomFiles imageFiles d) \<noteq> [] \<and>
      (bottom_path (files_of_date directory bottomFiles imageFiles d) \<noteq> [] \<longleftrightarrow>
         d \<in> date_prefix ` set bottomFiles)"
    if "d \<in> date_prefix ` set topFiles"
  proof -
    from that assms(1) have "list_all isDigit d" by (auto simp: top_date_digits)
    then show ?thesis
      using dated_name_plain(1) [of d top_suffix directory] dated_name_plain(1) [of d bottom_suffix directory]
      by (simp add: files_of_date_def)
  qed
  show ?thesis
    unfolding validRotationData_def set_sort_cmp
    using in_m paths by auto
qed

lemma rm_item_title: "rm_item md base_url fs e = Inr it \<Longrightarrow> title it = fst e @ js '' '' @ zh_rotation_monitor"
  by (cases e) (auto simp: rm_item_def Let_def split: sum.splits)

lemma chart_of_date:
  assumes "list_all isDigit d"
  shows "rm_chart_section base_url (image_path (files_of_date directory bottomFiles imageFiles d)) =
     (if d \<in> date_prefix ` set imageFiles then image_reference base_url (d @ image_suffix)
      else md_no_chart)"
  using dated_name_plain [OF assms, of image_suffix directory]
  by (simp add: rm_chart_section_def files_of_date_def truthy_def template_def image_reference_def Let_def)

lemma rm_item_of_date:
  assumes "list_all isDigit d"
    and "readFile fs (path_join directory (d @ top_suffix)) = Inr topContent"
    and "readFile fs (path_join directory (d @ bottom_suffix)) = Inr bottomContent"
    and "d \<in> date_prefix ` set bottomFiles"
  shows "\<exists>it. rm_item md base_url fs (d, files_of_date directory bottomFiles imageFiles d) = Inr it \<and>
     title it = d @ js '' '' @ zh_rotation_monitor \<and>
     description it =
       md (rm_markdown_head d (rm_records topContent) (rm_records bottomContent) @
           (if d \<in> date_prefix ` set imageFiles then image_reference base_url (d @ image_suffix)
            else md_no_chart))"
  using assms chart_of_date [OF assms(1), of base_url directory bottomFiles imageFiles]
  by (simp add: rm_item_def Let_def rm_parseCSV_Inr rm_records_def files_of_date_def)

lemma promise_all_set: "promise_all f xs = Inr ys \<Longrightarrow> f ` set xs = Inr ` set ys"
  by (induction xs arbitrary: ys) (auto split: sum.splits)

lemma promise_all_total:
  "\<forall>x \<in> set xs. \<exists>y. f x = Inr y \<Longrightarrow> \<exists>ys. promise_all f xs = Inr ys"
  by (induction xs) (auto split: sum.splits)

lemma set_map_set: "set (map_set k v m) \<subseteq> insert (k, v) (set m)"
  by (induction m) (auto split: if_splits)

lemma fold_top_unpaired:
  "\<forall>(d, g) \<in> set m. bottom_path g = [] \<Longrightarrow>
   \<forall>(d, g) \<in> set (foldl (add_top directory) m fs). bottom_path g = []"
proof (induction fs arbitrary: m)
  case Nil
  then show ?case by simp
next
  case (Cons f fs)
  have "\<forall>(d, g) \<in> set (add_top directory m f). bottom_path g = []"
  proof -
    have "bottom_path (case map_of m (date_prefix f) of
           None \<Rightarrow> \<lparr>top_path = [], bottom_path = [], image_path = None\<rparr>
         | Some fs \<Rightarrow> fs) = []"
      using Cons.prems by (auto split: option.splits dest: map_of_SomeD)
    then show ?thesis
      using Cons.prems set_map_set [of _ _ m] unfolding add_top_def Let_def by fastforce
  qed
  from Cons.IH [OF this] show ?case by simp
qed

lemma fold_image_unpaired:
  "\<forall>(d, g) \<in> set m. bottom_path g = [] \<Longrightarrow>
   \<forall>(d, g) \<in> set (foldl (add_image directory) m fs). bottom_path g = []"
proof (induction fs arbitrary: m)
  case Nil
  then show ?case by simp
next
  case (Cons f fs)
  have "\<forall>(d, g) \<in> set (add_image directory m f). bottom_path g = []"
  proof -
    show ?thesis
      using Cons.prems set_map_set [of _ _ m] unfolding add_image_def Let_def
      by (fastforce split: option.splits dest: map_of_SomeD)
  qed
  from Cons.IH [OF this] show ?case by simp
qed

lemma valid_no_bottom: "validRotationData (group_by_date directory topFiles [] imageFiles) = []"
proof -
  have "\<forall>(d, g) \<in> set (group_by_date directory topFiles [] imageFiles). bottom_path g = []"
    unfolding group_by_date_def
    by (intro fold_image_unpaired) (simp, intro fold_top_unpaired, simp)
  then have "filter (\<lambda>(_, files). top_path files \<noteq> [] \<and> bottom_path files \<noteq> [])
      (group_by_date directory topFiles [] imageFiles) = []"
    by (auto simp: filter_empty_conv)
  then show ?thesis by (simp add: validRotationData_def sort_cmp_def)
qed

lemma valid_no_top: "validRotationData (group_by_date directory [] bottomFiles imageFiles) = []"
  by (simp add: group_by_date_no_top validRotationData_def sort_cmp_def)

text \<open>
  With the directory listed, the handler sets no status and its items are the results of
  \<open>rm_item\<close> on the dates with both files.
\<close>

lemma rotation_handler_listed:
  assumes "readdir fs directory = Inr files"
  shows "\<exists>r. rotation_handler md base_url fs directory = (None, r) \<and>
     (case promise_all (rm_item md base_url fs)
             (validRotationData (group_by_date directory (filter isTopCSV files)
                (filter isBottomCSV files) (filter isImage files))) of
        Inl e \<Rightarrow> r = Inl e
      | Inr items \<Rightarrow> (\<exists>feed. r = Inr feed \<and> item feed = items \<and> feed_link feed = Some directory))"
proof (cases "filter isTopCSV files = [] \<or> filter isBottomCSV files = []")
  case True
  then have "validRotationData (group_by_date directory (filter isTopCSV files)
                (filter isBottomCSV files) (filter isImage files)) = []"
    using valid_no_bottom valid_no_top by metis
  with True assms show ?thesis
    by (auto simp: rotation_handler_def Let_def)
next
  case False
  with assms show ?thesis
    by (auto simp: rotation_handler_def Let_def split: sum.splits)
qed

lemma rm_item_result:
  assumes "rm_item md base_url fs (d, g) = Inr it"
  shows "\<exists>topRecords bottomRecords.
     title it = d @ js '' '' @ zh_rotation_monitor \<and>
     description it = md (rm_markdown_head d topRecords bottomRecords @
                          rm_chart_section base_url (image_path g))"
  using assms by (fastforce simp: rm_item_def Let_def split: sum.splits)

lemma rotation_items:
  assumes "readdir fs directory = Inr files"
    and "rotation_handler md base_url fs directory = (st, Inr feed)"
  shows "rm_item md base_url fs `
           set (validRotationData (group_by_date directory (filter isTopCSV files)
                  (filter isBottomCSV files) (filter isImage files))) =
         Inr ` set (item feed)"
proof -
  let ?valid = "validRotationData (group_by_date directory (filter isTopCSV files)
                  (filter isBottomCSV files) (filter isImage files))"
  from rotation_handler_listed [OF assms(1), of md base_url] obtain r where
    r: "rotation_handler md base_url fs directory = (None, r)"
    and c: "case promise_all (rm_item md base_url fs) ?valid of
          Inl e \<Rightarrow> r = Inl e
        | Inr items \<Rightarrow> (\<exists>feed'. r = Inr feed' \<and> item feed' = items \<and>
            feed_link feed' = Some directory)"
    by blast
  from r assms(2) have "r = Inr feed" by simp
  with c have "promise_all (rm_item md base_url fs) ?valid = Inr (item feed)"
    by (cases "promise_all (rm_item md base_url fs) ?valid") auto
  then show ?thesis by (rule promise_all_set)
qed

lemma in_filter_dates:
  "d \<in> date_prefix ` set (filter P files) \<longleftrightarrow> (\<exists>f \<in> set files. P f \<and> date_prefix f = d)"
  by auto

text \<open>The dates with an item are the dates with both CSV files.\<close>

lemma rotation_item_dates:
  assumes "readdir fs directory = Inr files"
    and "rotation_handler md base_url fs directory = (st, Inr feed)"
  shows "(\<exists>it \<in> set (item feed). title it = d @ js '' '' @ zh_rotation_monitor) \<longleftrightarrow>
         (\<exists>t \<in> set files. isTopCSV t \<and> date_prefix t = d) \<and>
         (\<exists>b \<in> set files. isBottomCSV b \<and> date_prefix b = d)"
proof -
  let ?T = "filter isTopCSV files" and ?B = "filter isBottomCSV files" and ?I = "filter isImage files"
  let ?valid = "validRotationData (group_by_date directory ?T ?B ?I)"
  note items = rotation_items [OF assms]
  have valid: "(d', g) \<in> set ?valid \<longleftrightarrow>
      d' \<in> date_prefix ` set ?T \<and> d' \<in> date_prefix ` set ?B \<and> g = files_of_date directory ?B ?I d'"
    for d' g
    by (rule valid_entries) simp_all
  show ?thesis
  proof
    assume "\<exists>it \<in> set (item feed). title it = d @ js '' '' @ zh_rotation_monitor"
    then obtain it where it: "it \<in> set (item feed)" "title it = d @ js '' '' @ zh_rotation_monitor"
      by blast
    from it(1) items obtain e where e: "e \<in> set ?valid" "rm_item md base_url fs e = Inr it"
      by (metis (no_types, lifting) image_iff)
    from rm_item_title [OF e(2)] it(2) have "fst e = d" by simp
    with e(1) valid [of d "snd e"] show "(\<exists>t \<in> set files. isTopCSV t \<and> date_prefix t = d) \<and>
         (\<exists>b \<in> set files. isBottomCSV b \<and> date_prefix b = d)"
      unfolding in_filter_dates by (cases e) auto
  next
    assume "(\<exists>t \<in> set files. isTopCSV t \<and> date_prefix t = d) \<and>
         (\<exists>b \<in> set files. isBottomCSV b \<and> date_prefix b = d)"
    then have "(d, files_of_date directory ?B ?I d) \<in> set ?valid"
      unfolding valid in_filter_dates by simp
    with items obtain it where "it \<in> set (item feed)"
      "rm_item md base_url fs (d, files_of_date directory ?B ?I d) = Inr it"
      by (metis (no_types, lifting) image_iff)
    with rm_item_title [OF this(2)] show "\<exists>it \<in> set (item feed). title it = d @ js '' '' @ zh_rotation_monitor"
      by auto
  qed
qed

lemma bottom_date_digits: "isBottomCSV f \<Longrightarrow> list_all isDigit (date_prefix f)"
  by (rule matched_date_name(3) [of bottom_suffix]) (simp add: isBottomCSV_def)

lemma rotation_handler_returns:
  assumes "readdir fs directory = Inr files"
    and "\<forall>f \<in> set files. isTopCSV f \<or> isBottomCSV f \<longrightarrow>
           (\<exists>content. readFile fs (path_join directory (name f)) = Inr content)"
  shows "\<exists>feed. rotation_handler md base_url fs directory = (None, Inr feed)"
proof -
  let ?T = "filter isTopCSV files" and ?B = "filter isBottomCSV files" and ?I = "filter isImage files"
  let ?valid = "validRotationData (group_by_date directory ?T ?B ?I)"
  have "\<exists>it. rm_item md base_url fs e = Inr it" if "e \<in> set ?valid" for e
  proof -
    obtain d g where e: "e = (d, g)" by (cases e)
    with that have v: "d \<in> date_prefix ` set ?T" "d \<in> date_prefix ` set ?B"
      "g = files_of_date directory ?B ?I d"
      using valid_entries [of ?T ?B ?I d g directory] by simp_all
    from v(1) obtain t where t: "t \<in> set files" "isTopCSV t" "date_prefix t = d" by auto
    from v(2) obtain b where b: "b \<in> set files" "isBottomCSV b" "date_prefix b = d" by auto
    from t assms(2) obtain tc where "readFile fs (path_join directory (name t)) = Inr tc" by blast
    with top_name [OF t(2)] t(3)
    have tc: "readFile fs (path_join directory (d @ top_suffix)) = Inr tc" by simp
    from b assms(2) obtain bc where "readFile fs (path_join directory (name b)) = Inr bc" by blast
    with bottom_name [OF b(2)] b(3)
    have bc: "readFile fs (path_join directory (d @ bottom_suffix)) = Inr bc" by simp
    from top_date_digits [OF t(2)] t(3) have dg: "list_all isDigit d" by simp
    from rm_item_of_date [OF dg tc bc v(2), of md base_url ?I] show ?thesis
      unfolding e v(3) by blast
  qed
  then obtain items where "promise_all (rm_item md base_url fs) ?valid = Inr items"
    using promise_all_total [of ?valid "rm_item md base_url fs"] by blast
  with rotation_handler_listed [OF assms(1), of md base_url] show ?thesis by auto
qed

lemmas name_tests = isTopCSV_def isBottomCSV_def isImage_def endsWith_def matches_date_suffix_def
  top_suffix_def bottom_suffix_def image_suffix_def isDigit_def js_def

lemma rotation_tops:
  "filter isTopCSV rotation_files_list =
     [\<lparr>name = js ''20240102_top_industry_stocks.csv'', isFile = True\<rparr>,
      \<lparr>name = js ''20240103_top_industry_stocks.csv'', isFile = True\<rparr>,
      \<lparr>name = js ''20240105_top_industry_stocks.csv'', isFile = True\<rparr>]"
  by (simp add: rotation_files_list_def name_tests)

lemma rotation_bottoms:
  "filter isBottomCSV rotation_files_list =
     [\<lparr>name = js ''20240102_bottom_industry_stocks.csv'', isFile = True\<rparr>,
      \<lparr>name = js ''20240105_bottom_industry_stocks.csv'', isFile = True\<rparr>,
      \<lparr>name = js ''20240104_bottom_industry_stocks.csv'', isFile = True\<rparr>]"
  by (simp add: rotation_files_list_def name_tests)

lemma rotation_images:
  "filter isImage rotation_files_list =
     [\<lparr>name = js ''20240104_industry_performance_trend.png'', isFile = True\<rparr>,
      \<lparr>name = js ''20240102_industry_performance_trend.png'', isFile = True\<rparr>]"
  by (simp add: rotation_files_list_def name_tests)

lemma rotation_top_dates:
  "(\<exists>t \<in> set rotation_files_list. isTopCSV t \<and> date_prefix t = d) \<longleftrightarrow>
   d \<in> {js ''20240102'', js ''20240103'', js ''20240105''}"
  unfolding in_filter_dates [symmetric] rotation_tops by (auto simp: slice_def js_def)

lemma rotation_bottom_dates:
  "(\<exists>b \<in> set rotation_files_list. isBottomCSV b \<and> date_prefix b = d) \<longleftrightarrow>
   d \<in> {js ''20240102'', js ''20240105'', js ''20240104''}"
  unfolding in_filter_dates [symmetric] rotation_bottoms by (auto simp: slice_def js_def)

lemma rotation_image_dates:
  "(\<exists>i \<in> set rotation_files_list. isImage i \<and> date_prefix i = d) \<longleftrightarrow>
   d \<in> {js ''20240104'', js ''20240102''}"
  unfolding in_filter_dates [symmetric] rotation_images by (auto simp: slice_def js_def)

lemma rotation_dir_listed: "readdir rotation_dir (js ''/rot'') = Inr rotation_files_list"
  by (simp add: rotation_dir_def)

lemma rotation_dir_readable:
  "\<forall>f \<in> set rotation_files_list. isTopCSV f \<or> isBottomCSV f \<longrightarrow>
     (\<exists>content. readFile rotation_dir (path_join (js ''/rot'') (name f)) = Inr content)"
  by (simp add: rotation_dir_def rotation_files_list_def path_join_def path_normalize_def js_def
      Let_def)

text \<open>
  Claim C3. With the directory listed, the rotation-monitor handler returns a feed
  whenever the top and bottom CSV files can be read, and in every feed it returns there
  is an item for a date exactly when the directory has both a top CSV and a bottom CSV
  of that date. A date with a top file only has no item.
\<close>

theorem paired_dates_only:
  assumes "readdir fs directory = Inr files"
  shows "((\<forall>f \<in> set files. isTopCSV f \<or> isBottomCSV f \<longrightarrow>
             (\<exists>content. readFile fs (path_join directory (name f)) = Inr content)) \<longrightarrow>
          (\<exists>feed. rotation_handler md base_url fs directory = (None, Inr feed))) \<and>
         (\<forall>st feed d. rotation_handler md base_url fs directory = (st, Inr feed) \<longrightarrow>
            ((\<exists>it \<in> set (item feed). title it = d @ js '' '' @ zh_rotation_monitor) \<longleftrightarrow>
             (\<exists>t \<in> set files. isTopCSV t \<and> date_prefix t = d) \<and>
             (\<exists>b \<in> set files. isBottomCSV b \<and> date_prefix b = d)))"
  using rotation_handler_returns [OF assms] rotation_item_dates [OF assms] by blast

theorem paired_dates_only_witness:
  "\<exists>feed. rotation_handler id None rotation_dir (js ''/rot'') = (None, Inr feed) \<and>
     (\<exists>it \<in> set (item feed). title it = js ''20240102 '' @ zh_rotation_monitor) \<and>
     (\<exists>it \<in> set (item feed). title it = js ''20240105 '' @ zh_rotation_monitor) \<and>
     \<not> (\<exists>it \<in> set (item feed). title it = js ''20240103 '' @ zh_rotation_monitor) \<and>
     \<not> (\<exists>it \<in> set (item feed). title it = js ''20240104 '' @ zh_rotation_monitor)"
proof -
  note c3 = paired_dates_only [OF rotation_dir_listed, of id None]
  from c3 have "\<exists>feed. rotation_handler id None rotation_dir (js ''/rot'') = (None, Inr feed)"
    using rotation_dir_readable by (rule conjunct1 [THEN mp])
  then obtain feed where
    f: "rotation_handler id None rotation_dir (js ''/rot'') = (None, Inr feed)" ..
  from c3 have "\<forall>st feed d. rotation_handler id None rotation_dir (js ''/rot'') = (st, Inr feed) \<longrightarrow>
            ((\<exists>it \<in> set (item feed). title it = d @ js '' '' @ zh_rotation_monitor) \<longleftrightarrow>
             (\<exists>t \<in> set rotation_files_list. isTopCSV t \<and> date_prefix t = d) \<and>
             (\<exists>b \<in> set rotation_files_list. isBottomCSV b \<and> date_prefix b = d))"
    by (rule conjunct2)
  with f have d: "(\<exists>it \<in> set (item feed). title it = d @ js '' '' @ zh_rotation_monitor) \<longleftrightarrow>
      d \<in> {js ''20240102'', js ''20240103'', js ''20240105''} \<and>
      d \<in> {js ''20240102'', js ''20240105'', js ''20240104''}" for d
    unfolding rotation_top_dates rotation_bottom_dates by blast
  have e: "js ''20240102 '' = js ''20240102'' @ js '' ''" "js ''20240103 '' = js ''20240103'' @ js '' ''"
    "js ''20240104 '' = js ''20240104'' @ js '' ''" "js ''20240105 '' = js ''20240105'' @ js '' ''"
    by (simp_all add: js_def)
  have "\<exists>it \<in> set (item feed). title it = js ''20240102 '' @ zh_rotation_monitor"
    unfolding e using d [of "js ''20240102''"] by simp
  moreover have "\<exists>it \<in> set (item feed). title it = js ''20240105 '' @ zh_rotation_monitor"
    unfolding e using d [of "js ''20240105''"] by simp
  moreover have "\<not> (\<exists>it \<in> set (item feed). title it = js ''20240103 '' @ zh_rotation_monitor)"
    unfolding e using d [of "js ''20240103''"] by (simp add: js_def)
  moreover have "\<not> (\<exists>it \<in> set (item feed). title it = js ''20240104 '' @ zh_rotation_monitor)"
    unfolding e using d [of "js ''20240104''"] by (simp add: js_def)
  ultimately show ?thesis using f by blast
qed

text \<open>The item of a date with both CSV files, in a feed the handler returns.\<close>

lemma rotation_item_of_date:
  assumes "readdir fs directory = Inr files"
    and "rotation_handler md base_url fs directory = (st, Inr feed)"
    and "\<exists>t \<in> set files. isTopCSV t \<and> date_prefix t = d"
    and "\<exists>b \<in> set files. isBottomCSV b \<and> date_prefix b = d"
  shows "\<exists>it \<in> set (item feed). \<exists>topRecords bottomRecords.
           title it = d @ js '' '' @ zh_rotation_monitor \<and>
           description it =
             md (rm_markdown_head d topRecords bottomRecords @
                 (if \<exists>i \<in> set files. isImage i \<and> date_prefix i = d
                  then image_reference base_url (d @ image_suffix) else md_no_chart))"
proof -
  let ?T = "filter isTopCSV files" and ?B = "filter isBottomCSV files" and ?I = "filter isImage files"
  let ?valid = "validRotationData (group_by_date directory ?T ?B ?I)"
  let ?g = "files_of_date directory ?B ?I d"
  from assms(3) have dg: "list_all isDigit d" by (auto simp: top_date_digits)
  from assms(3,4) have "(d, ?g) \<in> set ?valid"
    using valid_entries [of ?T ?B ?I d ?g directory] unfolding in_filter_dates by simp
  with rotation_items [OF assms(1,2)] obtain it where
    it: "it \<in> set (item feed)" "rm_item md base_url fs (d, ?g) = Inr it"
    by (metis (no_types, lifting) image_iff)
  from rm_item_result [OF it(2)] obtain topRecords bottomRecords where
    "title it = d @ js '' '' @ zh_rotation_monitor"
    "description it = md (rm_markdown_head d topRecords bottomRecords @
        rm_chart_section base_url (image_path ?g))"
    by blast
  with it(1) show ?thesis
    unfolding chart_of_date [OF dg] in_filter_dates by blast
qed

text \<open>
  Claim C6. In a feed the rotation-monitor handler returns, the item of a date with both
  CSV files has a body that is the rendering of a Markdown text ending in the chart
  section. When the directory has an image file of that date, the section is a Markdown
  image whose address is the base URL of the environment (or the default), a slash and
  the name of the image file; otherwise it is the notice that no chart is available.
\<close>

theorem chart_section_by_image:
  assumes "readdir fs directory = Inr files"
    and "rotation_handler md base_url fs directory = (st, Inr feed)"
    and "\<exists>t \<in> set files. isTopCSV t \<and> date_prefix t = d"
    and "\<exists>b \<in> set files. isBottomCSV b \<and> date_prefix b = d"
  shows "(\<forall>i \<in> set files. isImage i \<and> date_prefix i = d \<longrightarrow> name i = d @ image_suffix) \<and>
         (\<exists>it \<in> set (item feed). \<exists>topRecords bottomRecords.
            title it = d @ js '' '' @ zh_rotation_monitor \<and>
            description it =
              md (rm_markdown_head d topRecords bottomRecords @
                  (if \<exists>i \<in> set files. isImage i \<and> date_prefix i = d
                   then js ''!['' @ zh_industry_trend @ js '']('' @
                        or_else base_url default_image_base_url @ [SLASH] @ (d @ image_suffix) @
                        js '')\<newline>\<newline>''
                   else md_no_chart)))"
proof -
  have "name i = d @ image_suffix" if "isImage i" "date_prefix i = d" for i
    using image_name [OF that(1)] that(2) by simp
  then show ?thesis
    using rotation_item_of_date [OF assms] unfolding image_reference_def by blast
qed


theorem chart_section_by_image_witness:
  "\<exists>feed. rotation_handler id (Some (js ''https://cdn.example/img'')) rotation_dir (js ''/rot'') =
            (None, Inr feed) \<and>
     (\<exists>it \<in> set (item feed). \<exists>topRecords bottomRecords.
        title it = js ''20240102 '' @ zh_rotation_monitor \<and>
        description it =
          rm_markdown_head (js ''20240102'') topRecords bottomRecords @
          js ''!['' @ zh_industry_trend @
          js ''](https://cdn.example/img/20240102_industry_performance_trend.png)\<newline>\<newline>'') \<and>
     (\<exists>it \<in> set (item feed). \<exists>topRecords bottomRecords.
        title it = js ''20240105 '' @ zh_rotation_monitor \<and>
        description it = rm_markdown_head (js ''20240105'') topRecords bottomRecords @ md_no_chart)"
proof -
  let ?base = "Some (js ''https://cdn.example/img'')"
  from rotation_handler_returns [OF rotation_dir_listed rotation_dir_readable, of id ?base]
  obtain feed where
    f: "rotation_handler id ?base rotation_dir (js ''/rot'') = (None, Inr feed)" ..
  have t2: "\<exists>t \<in> set rotation_files_list. isTopCSV t \<and> date_prefix t = js ''20240102''"
    and b2: "\<exists>b \<in> set rotation_files_list. isBottomCSV b \<and> date_prefix b = js ''20240102''"
    and t5: "\<exists>t \<in> set rotation_files_list. isTopCSV t \<and> date_prefix t = js ''20240105''"
    and b5: "\<exists>b \<in> set rotation_files_list. isBottomCSV b \<and> date_prefix b = js ''20240105''"
    unfolding rotation_top_dates rotation_bottom_dates by simp_all
  have i2: "\<exists>i \<in> set rotation_files_list. isImage i \<and> date_prefix i = js ''20240102''"
    and i5: "\<not> (\<exists>i \<in> set rotation_files_list. isImage i \<and> date_prefix i = js ''20240105'')"
    unfolding rotation_image_dates by (simp_all add: js_def)
  have u: "js ''![''  @ zh_industry_trend @ js '']('' @
        or_else ?base default_image_base_url @ [SLASH] @ (js ''20240102'' @ image_suffix) @
        js '')\<newline>\<newline>'' =
      js ''!['' @ zh_industry_trend @
          js ''](https://cdn.example/img/20240102_industry_performance_trend.png)\<newline>\<newline>''"
    by (simp add: or_else_def image_suffix_def js_def)
  have e: "js ''20240102 '' = js ''20240102'' @ js '' ''" "js ''20240105 '' = js ''20240105'' @ js '' ''"
    by (simp_all add: js_def)
  from chart_section_by_image [OF rotation_dir_listed f t2 b2]
  have "\<exists>it \<in> set (item feed). \<exists>topRecords bottomRecords.
        title it = js ''20240102 '' @ zh_rotation_monitor \<and>
        description it =
          rm_markdown_head (js ''20240102'') topRecords bottomRecords @
          js ''!['' @ zh_industry_trend @
          js ''](https://cdn.example/img/20240102_industry_performance_trend.png)\<newline>\<newline>''"
    unfolding if_P [OF i2] u e by simp
  moreover from chart_section_by_image [OF rotation_dir_listed f t5 b5]
  have "\<exists>it \<in> set (item feed). \<exists>topRecords bottomRecords.
        title it = js ''20240105 '' @ zh_rotation_monitor \<and>
        description it = rm_markdown_head (js ''20240105'') topRecords bottomRecords @ md_no_chart"
    unfolding if_not_P [OF i5] e by simp
  ultimately show ?thesis using f by blast
qed

lemma group_entries:
  assumes "\<forall>f \<in> set topFiles. isTopCSV f" "\<forall>f \<in> set bottomFiles. isBottomCSV f"
    "\<forall>f \<in> set imageFiles. isImage f"
  shows "(d, g) \<in> set (group_by_date directory topFiles bottomFiles imageFiles) \<longleftrightarrow>
      d \<in> date_prefix ` set topFiles \<and> g = files_of_date directory bottomFiles imageFiles d"
proof -
  let ?m = "group_by_date directory topFiles bottomFiles imageFiles"
  have "(d, g) \<in> set ?m \<longleftrightarrow> map_of ?m d = Some g"
    by (rule map_of_eq_Some_iff [symmetric, OF distinct_group_by_date])
  then show ?thesis
    unfolding map_of_group_by_date [OF assms] by auto
qed

text \<open>
  Claim C10. The keys of the map of files by date are exactly the dates of the top CSV
  files, and the entry of a date holds the files of that date only. So in a feed the
  handler returns every item belongs to a date with a top file, and its chart section
  shows the image of that same date or the notice: a bottom CSV or an image of a date
  without a top file reaches neither the map nor the feed.
\<close>

theorem grouping_only_top_dates:
  "(let filesByDate = group_by_date directory (filter isTopCSV files) (filter isBottomCSV files)
                        (filter isImage files)
    in fst ` set filesByDate = date_prefix ` {f \<in> set files. isTopCSV f} \<and>
       (\<forall>(d, g) \<in> set filesByDate.
          g = files_of_date directory (filter isBottomCSV files) (filter isImage files) d) \<and>
       (readdir fs directory = Inr files \<longrightarrow>
          (\<forall>st feed. rotation_handler md base_url fs directory = (st, Inr feed) \<longrightarrow>
             (\<forall>it \<in> set (item feed). \<exists>d topRecords bottomRecords.
                (\<exists>t \<in> set files. isTopCSV t \<and> date_prefix t = d) \<and>
                title it = d @ js '' '' @ zh_rotation_monitor \<and>
                description it =
                  md (rm_markdown_head d topRecords bottomRecords @
                      (if \<exists>i \<in> set files. isImage i \<and> date_prefix i = d
                       then image_reference base_url (d @ image_suffix) else md_no_chart))))))"
proof -
  let ?T = "filter isTopCSV files" and ?B = "filter isBottomCSV files" and ?I = "filter isImage files"
  let ?m = "group_by_date directory ?T ?B ?I"
  have keys: "fst ` set ?m = date_prefix ` {f \<in> set files. isTopCSV f}"
    by (simp add: keys_group_by_date)
  have entries: "\<forall>(d, g) \<in> set ?m. g = files_of_date directory ?B ?I d"
    using group_entries [of ?T ?B ?I _ _ directory] by auto
  have items: "\<exists>d topRecords bottomRecords.
                (\<exists>t \<in> set files. isTopCSV t \<and> date_prefix t = d) \<and>
                title it = d @ js '' '' @ zh_rotation_monitor \<and>
                description it =
                  md (rm_markdown_head d topRecords bottomRecords @
                      (if \<exists>i \<in> set files. isImage i \<and> date_prefix i = d
                       then image_reference base_url (d @ image_suffix) else md_no_chart))"
    if r: "readdir fs directory = Inr files"
      and h: "rotation_handler md base_url fs directory = (st, Inr feed)"
      and it: "it \<in> set (item feed)" for st feed it
  proof -
    from it rotation_items [OF r h] obtain e where
      e: "e \<in> set (validRotationData ?m)" "rm_item md base_url fs e = Inr it"
      by (metis (no_types, lifting) image_iff)
    obtain d g where dg: "e = (d, g)" by (cases e)
    with e(1) have v: "d \<in> date_prefix ` set ?T" "g = files_of_date directory ?B ?I d"
      using valid_entries [of ?T ?B ?I d g directory] by simp_all
    from v(1) have top: "\<exists>t \<in> set files. isTopCSV t \<and> date_prefix t = d"
      unfolding in_filter_dates .
    then have digits: "list_all isDigit d" by (auto simp: top_date_digits)
    from rm_item_result [OF e(2) [unfolded dg]] obtain topRecords bottomRecords where
      "title it = d @ js '' '' @ zh_rotation_monitor"
      "description it = md (rm_markdown_head d topRecords bottomRecords @
          rm_chart_section base_url (image_path g))"
      by blast
    with top show ?thesis
      unfolding v(2) chart_of_date [OF digits] in_filter_dates by blast
  qed
  from keys entries items show ?thesis
    unfolding Let_def by blast
qed

theorem grouping_only_top_dates_witness:
  "fst ` set (group_by_date (js ''/rot'') (filter isTopCSV rotation_files_list)
               (filter isBottomCSV rotation_files_list) (filter isImage rotation_files_list)) =
     {js ''20240102'', js ''20240103'', js ''20240105''} \<and>
   (\<exists>b \<in> set rotation_files_list. isBottomCSV b \<and> date_prefix b = js ''20240104'') \<and>
   (\<exists>i \<in> set rotation_files_list. isImage i \<and> date_prefix i = js ''20240104'') \<and>
   (\<exists>feed. rotation_handler id None rotation_dir (js ''/rot'') = (None, Inr feed) \<and>
      \<not> (\<exists>it \<in> set (item feed). title it = js ''20240104 '' @ zh_rotation_monitor))"
proof -
  note c10 = grouping_only_top_dates [of "js ''/rot''" rotation_files_list rotation_dir id None,
      unfolded Let_def]
  have tops: "date_prefix ` {f \<in> set rotation_files_list. isTopCSV f} =
      {js ''20240102'', js ''20240103'', js ''20240105''}"
  proof -
    have "date_prefix ` {f \<in> set rotation_files_list. isTopCSV f} =
        date_prefix ` set (filter isTopCSV rotation_files_list)" by simp
    also have "\<dots> = {js ''20240102'', js ''20240103'', js ''20240105''}"
      unfolding rotation_tops by (simp add: slice_def js_def)
    finally show ?thesis .
  qed
  from c10 have keys: "fst ` set (group_by_date (js ''/rot'') (filter isTopCSV rotation_files_list)
               (filter isBottomCSV rotation_files_list) (filter isImage rotation_files_list)) =
     {js ''20240102'', js ''20240103'', js ''20240105''}"
    unfolding tops by (rule conjunct1)
  have b4: "\<exists>b \<in> set rotation_files_list. isBottomCSV b \<and> date_prefix b = js ''20240104''"
    and i4: "\<exists>i \<in> set rotation_files_list. isImage i \<and> date_prefix i = js ''20240104''"
    unfolding rotation_bottom_dates rotation_image_dates by simp_all
  from rotation_handler_returns [OF rotation_dir_listed rotation_dir_readable, of id None]
  obtain feed where f: "rotation_handler id None rotation_dir (js ''/rot'') = (None, Inr feed)" ..
  have "\<not> (\<exists>it \<in> set (item feed). title it = js ''20240104 '' @ zh_rotation_monitor)"
  proof
    assume "\<exists>it \<in> set (item feed). title it = js ''20240104 '' @ zh_rotation_monitor"
    then obtain it where it: "it \<in> set (item feed)"
      "title it = js ''20240104 '' @ zh_rotation_monitor" by blast
    note c10 [THEN conjunct2, THEN conjunct2, THEN mp, OF rotation_dir_listed, THEN spec,
      THEN spec, THEN mp, OF f, THEN bspec, OF it(1)]
    then obtain d where
      d: "\<exists>t \<in> set rotation_files_list. isTopCSV t \<and> date_prefix t = d"
      "title it = d @ js '' '' @ zh_rotation_monitor"
      by blast
    from d(2) it(2) have "d = js ''20240104''" by (simp add: js_def)
    with d(1) show False unfolding rotation_top_dates by (simp add: js_def)
  qed
  with keys b4 i4 f show ?thesis by blast
qed

section \<open>Unreadable and empty directories\<close>

text \<open>
  When \<open>readdir\<close> rejects, the rotation-monitor handler returns a feed with no item whose
  description carries the directory and the error's message, and leaves the number 400 in
  the property \<open>status\<close> of its context without giving the response a status; the
  stockpicker handler has no \<open>try\<close> and rejects with the same error.
\<close>

lemma unreadable_directory:
  assumes "readdir fs directory = Inl e"
  shows "rotation_handler md base_url fs directory =
           (None,
            Inr \<lparr>feed_title = zh_read_failed, feed_link = None,
                 feed_description =
                   zh_cannot_read_directory @ js '': '' @ directory @ zh_error_message @ js '': '' @
                   message e,
                 item = []\<rparr>) \<and>
         rotation_ctx fs directory ctx = ctx\<lparr>status := StatusValue 400\<rparr> \<and>
         stockpicker_handler fs directory = Inl e"
  using assms by (simp add: rotation_handler_def rotation_ctx_def stockpicker_handler_def)

text \<open>
  Claim C4 says that for an unreadable directory the rotation-monitor route returns a
  degraded feed (no item, an explanatory message) with a client-error status, and that the
  stockpicker route lets the error propagate. For the missing directory \<open>/missing\<close> the
  feed is the degraded one and the stockpicker handler rejects, but the response gets no
  status: \<open>ctx.status = 400\<close> only overwrites the method \<open>status\<close> of the context.
\<close>

theorem unreadable_directory_no_status:
  "readdir stock_dir (js ''/missing'') = Inl enoent \<and>
   rotation_handler id None stock_dir (js ''/missing'') =
     (None,
      Inr \<lparr>feed_title = zh_read_failed, feed_link = None,
           feed_description =
             zh_cannot_read_directory @ js '': /missing'' @ zh_error_message @
             js '': ENOENT: no such file or directory'',
           item = []\<rparr>) \<and>
   rotation_ctx stock_dir (js ''/missing'') hono_context =
     \<lparr>status = StatusValue 400, res_status = None\<rparr> \<and>
   stockpicker_handler stock_dir (js ''/missing'') = Inl enoent"
proof -
  have r: "readdir stock_dir (js ''/missing'') = Inl enoent"
    by (simp add: stock_dir_def js_def)
  from unreadable_directory [OF r, of id None hono_context] r show ?thesis
    by (simp add: enoent_def js_def hono_context_def)
qed

text \<open>
  Claim C8, amended. For a readable directory with no matching file each route returns
  a feed with no item and a non-empty description. In the rotation-monitor route the
  description is the notice that no matching CSV file was found. In the stockpicker
  route it is the fixed description of the feed, the same whether or not there are items.
\<close>

theorem no_matching_files:
  assumes "readdir fs directory = Inr files"
  shows "(filter isStockFile files = [] \<longrightarrow>
            stockpicker_handler fs directory =
              Inr \<lparr>feed_title = sp_feed_title, feed_link = Some directory,
                   feed_description = sp_feed_description, item = []\<rparr>) \<and>
         (\<forall>feed. stockpicker_handler fs directory = Inr feed \<longrightarrow>
            feed_description feed = sp_feed_description) \<and>
         (filter isTopCSV files = [] \<or> filter isBottomCSV files = [] \<longrightarrow>
            rotation_handler md base_url fs directory =
              (None,
               Inr \<lparr>feed_title = zh_rotation_monitor, feed_link = Some directory,
                    feed_description = zh_no_matching_csv, item = []\<rparr>)) \<and>
         sp_feed_description \<noteq> [] \<and> zh_no_matching_csv \<noteq> []"
  using assms
  by (auto simp: stockpicker_handler_def rotation_handler_def sort_cmp_def Let_def
      sp_feed_description_def zh_no_matching_csv_def split: sum.splits)

theorem no_matching_files_witness:
  "readdir empty_dir (js ''/data'') = Inr [] \<and>
   stockpicker_handler empty_dir (js ''/data'') =
     Inr \<lparr>feed_title = sp_feed_title, feed_link = Some (js ''/data''),
          feed_description = sp_feed_description, item = []\<rparr> \<and>
   rotation_handler id None empty_dir (js ''/data'') =
     (None,
      Inr \<lparr>feed_title = zh_rotation_monitor, feed_link = Some (js ''/data''),
           feed_description = zh_no_matching_csv, item = []\<rparr>)"
proof -
  have r: "readdir empty_dir (js ''/data'') = Inr []"
    by (simp add: empty_dir_def)
  from no_matching_files [OF r, of id None] r show ?thesis by simp
qed

text \<open>
  The description of the stockpicker feed does not explain an empty item list: it is the
  same text for the empty directory and for a directory with three matching files.
\<close>

theorem empty_feed_description_counterexample:
  "readdir empty_dir (js ''/data'') = Inr [] \<and>
   map_sum id (\<lambda>feed. (feed_description feed, length (item feed)))
     (stockpicker_handler empty_dir (js ''/data'')) = Inr (sp_feed_description, 0) \<and>
   map_sum id (\<lambda>feed. (feed_description feed, length (item feed)))
     (stockpicker_handler stock_dir (js ''/data'')) = Inr (sp_feed_description, 3)"
proof -
  have r: "readdir stock_dir (js ''/data'') = Inr stock_files"
    by (simp add: stock_dir_def)
  have ok: "\<forall>file \<in> set stock_files. isStockFile file \<longrightarrow>
      (\<exists>content. readFile stock_dir (path_join (js ''/data'') (name file)) = Inr content)"
    by (simp add: stock_dir_def stock_files_def path_join_def path_normalize_def js_def Let_def)
  from stockpicker_feed [OF r ok] obtain items where
    h: "stockpicker_handler stock_dir (js ''/data'') =
           Inr \<lparr>feed_title = sp_feed_title, feed_link = Some (js ''/data''),
                feed_description = sp_feed_description, item = items\<rparr>"
    and d: "map (\<lambda>i. take 8 (title i)) items =
      map (\<lambda>f. slice (name f) 0 8) (sort_cmp sp_compare (filter isStockFile stock_files))"
    by blast
  have "length (sort_cmp sp_compare (filter isStockFile stock_files)) = 3"
    using size_mset [of "sort_cmp sp_compare (filter isStockFile stock_files)"]
    by (simp only: mset_sort_cmp stock_files_matching) simp
  with d have "length items = 3" by (metis length_map)
  with h show ?thesis
    by (simp add: empty_dir_def stockpicker_handler_def sort_cmp_def)
qed

end
